theory Spec2Isabelle
  imports Main "HOL-Library.AList" "HOL-Library.Monad_Syntax"
begin

section \<open>JavaScript strings and objects\<close>

text \<open>
  Strings are lists of code units. Every string operation the stores use (comparison,
  \<^verbatim>\<open>split\<close>, \<^verbatim>\<open>startsWith\<close>, \<^verbatim>\<open>slice\<close>, concatenation, \<^verbatim>\<open>length\<close>) works code unit by
  code unit, so the element type does not matter to them; \<open>char\<close> holds the code units
  below 256.
\<close>

definition startsWith :: "string \<Rightarrow> string \<Rightarrow> bool" where
  \<comment> \<open>\<^verbatim>\<open>s.startsWith(p)\<close>\<close>
  "startsWith s p = (take (length p) s = p)"

fun js_split :: "char \<Rightarrow> string \<Rightarrow> string list" where
  \<comment> \<open>\<^verbatim>\<open>s.split(sep)\<close> for a one-character separator: \<^verbatim>\<open>''.split('/')\<close> is \<^verbatim>\<open>['']\<close>\<close>
  "js_split sep [] = [[]]"
| "js_split sep (c # cs) =
     (if c = sep then [] # js_split sep cs
      else (case js_split sep cs of [] \<Rightarrow> [[c]] | s # ss \<Rightarrow> (c # s) # ss))"

fun js_join :: "string \<Rightarrow> string list \<Rightarrow> string" where
  \<comment> \<open>\<^verbatim>\<open>xs.join(sep)\<close>\<close>
  "js_join sep [] = []"
| "js_join sep [x] = x"
| "js_join sep (x # y # ys) = x @ sep @ js_join sep (y # ys)"

definition filterBoolean :: "string list \<Rightarrow> string list" where
  \<comment> \<open>\<^verbatim>\<open>xs.filter(Boolean)\<close> on strings: the empty string is the only falsy one\<close>
  "filterBoolean xs = filter (\<lambda>s. s \<noteq> []) xs"

fun getSubstitution :: "string \<Rightarrow> string \<Rightarrow> string \<Rightarrow> string \<Rightarrow> string" where
  \<comment> \<open>the replacement text of \<^verbatim>\<open>String.prototype.replace\<close> for a string pattern (no
      capture groups): \<^verbatim>\<open>$$\<close> is a dollar, \<^verbatim>\<open>$&\<close> the matched text, \<^verbatim>\<open>$`\<close> the text
      before the match, \<^verbatim>\<open>$'\<close> the text after it; every other character stands for
      itself\<close>
  "getSubstitution matched preceding following (c # d # r) =
     (if c = CHR ''$'' \<and> d = CHR ''$'' then CHR ''$'' # getSubstitution matched preceding following r
      else if c = CHR ''$'' \<and> d = CHR ''&'' then matched @ getSubstitution matched preceding following r
      else if c = CHR ''$'' \<and> d = CHR 0x60 then preceding @ getSubstitution matched preceding following r
      else if c = CHR ''$'' \<and> d = CHR 0x27 then following @ getSubstitution matched preceding following r
      else c # getSubstitution matched preceding following (d # r))"
| "getSubstitution matched preceding following r = r"

fun replace_from :: "string \<Rightarrow> string \<Rightarrow> string \<Rightarrow> string \<Rightarrow> string" where
  \<comment> \<open>scan for the first occurrence of \<open>pat\<close>; \<open>preceding\<close> is the text already passed\<close>
  "replace_from preceding [] pat rep =
     (if pat = [] then preceding @ getSubstitution pat preceding [] rep else preceding)"
| "replace_from preceding (c # cs) pat rep =
     (if startsWith (c # cs) pat
      then preceding @ getSubstitution pat preceding (drop (length pat) (c # cs)) rep
             @ drop (length pat) (c # cs)
      else replace_from (preceding @ [c]) cs pat rep)"

definition js_replace :: "string \<Rightarrow> string \<Rightarrow> string \<Rightarrow> string" where
  \<comment> \<open>\<^verbatim>\<open>s.replace(pat, rep)\<close> with a string pattern: the first occurrence only\<close>
  "js_replace s pat rep = replace_from [] s pat rep"

text \<open>
  A JavaScript object used as a dictionary keeps its string keys in insertion order:
  writing an existing key keeps the key's place, writing a new key appends it, and
  \<^verbatim>\<open>Object.values\<close> enumerates in that order. An association list with
  \<^const>\<open>AList.update\<close> and \<^const>\<open>AList.delete\<close> behaves the same way. (Keys that are
  canonical array indices would be enumerated first; node ids are UUIDs.)
\<close>

section \<open>The data model (\<^verbatim>\<open>types/wizard\<close>)\<close>

datatype node_type = File | Directory

datatype js_date = DateObj nat | DateString string
  \<comment> \<open>a \<^verbatim>\<open>Date\<close> object (milliseconds), or the ISO string a \<^verbatim>\<open>Date\<close> becomes in JSON\<close>

record FileNode =
  idF :: string
  name :: string
  typeF :: node_type
  path :: string
  parent :: "string option"        \<comment> \<open>\<^verbatim>\<open>string | null\<close>\<close>
  permissions :: string
  owner :: string
  groupF :: string
  sizeF :: nat
  created :: js_date
  modified :: js_date
  content :: "string option"       \<comment> \<open>optional field: \<open>None\<close> is \<^verbatim>\<open>undefined\<close>\<close>
  children :: "string list option"
  isReadOnly :: "bool option"

record FileSystem =
  nodes :: "(string \<times> FileNode) list"   \<comment> \<open>\<^verbatim>\<open>Record<string, FileNode>\<close>\<close>
  root :: string
  currentDirectory :: string

section \<open>The filesystem store (\<^verbatim>\<open>stores/filesystemStore.ts\<close>)\<close>

subsection \<open>Path utilities\<close>

fun normalize_parts :: "string list \<Rightarrow> string list \<Rightarrow> string list" where
  \<comment> \<open>the loop \<^verbatim>\<open>for (const part of parts)\<close> of \<^verbatim>\<open>resolvePath\<close>, started with
      \<^verbatim>\<open>resolved = []\<close>; \<^verbatim>\<open>pop\<close> on an empty array does nothing\<close>
  "normalize_parts resolved [] = resolved"
| "normalize_parts resolved (part # parts) =
     (if part = ''..'' then normalize_parts (butlast resolved) parts
      else if part \<noteq> ''.'' then normalize_parts (resolved @ [part]) parts
      else normalize_parts resolved parts)"

definition currentDirPath :: "FileSystem \<Rightarrow> string" where
  \<comment> \<open>\<^verbatim>\<open>currentDir?.path || '/'\<close>\<close>
  "currentDirPath fs =
     (case map_of (nodes fs) (currentDirectory fs) of
        None \<Rightarrow> ''/''
      | Some currentDir \<Rightarrow> if path currentDir = [] then ''/'' else path currentDir)"

definition resolvePath :: "FileSystem \<Rightarrow> string \<Rightarrow> string" where
  \<comment> \<open>\<^verbatim>\<open>'/' + resolved.join('/') || '/'\<close> parses as \<^verbatim>\<open>('/' + ...) || '/'\<close>, whose left
      operand is never empty\<close>
  "resolvePath fs p =
     (if p = [] \<or> p = ''.'' then currentDirPath fs
      else if p = ''~'' then ''/home/user''
      else if startsWith p ''~/'' then ''/home/user'' @ drop 1 p
      else if startsWith p ''/''
        then ''/'' @ js_join ''/'' (normalize_parts [] (filterBoolean (js_split CHR ''/'' p)))
      else ''/'' @ js_join ''/''
             (normalize_parts []
                (filterBoolean (js_split CHR ''/'' (currentDirPath fs @ ''/'' @ p)))))"

definition getParentPath :: "string \<Rightarrow> string" where
  "getParentPath p = ''/'' @ js_join ''/'' (butlast (filterBoolean (js_split CHR ''/'' p)))"

subsection \<open>Navigation\<close>

definition getNodeById :: "FileSystem \<Rightarrow> string \<Rightarrow> FileNode option" where
  "getNodeById fs i = map_of (nodes fs) i"

definition getCurrentDirectory :: "FileSystem \<Rightarrow> FileNode option" where
  "getCurrentDirectory fs = map_of (nodes fs) (currentDirectory fs)"

definition getNodeByPath :: "FileSystem \<Rightarrow> string \<Rightarrow> FileNode option" where
  \<comment> \<open>\<^verbatim>\<open>Object.values(filesystem.nodes).find(n => n.path === resolvedPath) || null\<close>\<close>
  "getNodeByPath fs p = find (\<lambda>n. path n = resolvePath fs p) (map snd (nodes fs))"

definition getChildren :: "FileSystem \<Rightarrow> string \<Rightarrow> FileNode list" where
  "getChildren fs nodeId =
     (case map_of (nodes fs) nodeId of
        None \<Rightarrow> []
      | Some node \<Rightarrow>
          (case children node of
             None \<Rightarrow> []
           | Some cs \<Rightarrow>
               if typeF node \<noteq> Directory then []
               else List.map_filter (\<lambda>i. map_of (nodes fs) i) cs))"

definition setCurrentDirectory :: "string \<Rightarrow> FileSystem \<Rightarrow> bool \<times> FileSystem" where
  "setCurrentDirectory p fs =
     (case getNodeByPath fs (resolvePath fs p) of
        None \<Rightarrow> (False, fs)
      | Some node \<Rightarrow>
          if typeF node \<noteq> Directory then (False, fs)
          else (True, fs\<lparr>currentDirectory := idF node\<rparr>))"

subsection \<open>File operations\<close>

text \<open>
  Two things come from outside the store and are parameters of the model: the identifier
  \<^verbatim>\<open>uuidv4()\<close> returns (\<open>newId\<close>) and the clock \<^verbatim>\<open>new Date()\<close> reads (\<open>now\<close>, read once
  per operation). Every operation takes the filesystem and returns its result together
  with the filesystem it leaves in the store.
\<close>

definition joinPath :: "string \<Rightarrow> string \<Rightarrow> string" where
  \<comment> \<open>\<^verbatim>\<open>parentPath === '/' ? `/${name}` : `${parentPath}/${name}`\<close>\<close>
  "joinPath parentPath nm = (if parentPath = ''/'' then ''/'' @ nm else parentPath @ ''/'' @ nm)"

definition childrenOrEmpty :: "FileNode \<Rightarrow> string list" where
  \<comment> \<open>\<^verbatim>\<open>node.children || []\<close>\<close>
  "childrenOrEmpty n = (case children n of None \<Rightarrow> [] | Some cs \<Rightarrow> cs)"

definition createFile ::
  "string \<Rightarrow> nat \<Rightarrow> string \<Rightarrow> string \<Rightarrow> string option \<Rightarrow> FileSystem
     \<Rightarrow> FileNode option \<times> FileSystem" where
  \<comment> \<open>the third argument is optional and defaults to the empty string\<close>
  "createFile newId now nm parentPath contentArg fs =
     (case getNodeByPath fs parentPath of
        None \<Rightarrow> (None, fs)
      | Some parentN \<Rightarrow>
          if typeF parentN \<noteq> Directory then (None, fs)
          else
            let content' = (case contentArg of None \<Rightarrow> [] | Some c \<Rightarrow> c);
                newPath = joinPath (path parentN) nm
            in if getNodeByPath fs newPath \<noteq> None then (None, fs)
               else
                 let newFile = \<lparr>idF = newId, name = nm, typeF = File, path = newPath,
                                parent = Some (idF parentN), permissions = ''rw-r--r--'',
                                owner = ''user'', groupF = ''user'', sizeF = length content',
                                created = DateObj now, modified = DateObj now,
                                content = Some content', children = None, isReadOnly = None\<rparr>
                 in (Some newFile,
                     fs\<lparr>nodes :=
                          AList.update (idF parentN)
                            (parentN\<lparr>children := Some (childrenOrEmpty parentN @ [newId])\<rparr>)
                            (AList.update newId newFile (nodes fs))\<rparr>))"

definition createDirectory ::
  "string \<Rightarrow> nat \<Rightarrow> string \<Rightarrow> string \<Rightarrow> FileSystem \<Rightarrow> FileNode option \<times> FileSystem" where
  "createDirectory newId now nm parentPath fs =
     (case getNodeByPath fs parentPath of
        None \<Rightarrow> (None, fs)
      | Some parentN \<Rightarrow>
          if typeF parentN \<noteq> Directory then (None, fs)
          else
            let newPath = joinPath (path parentN) nm
            in if getNodeByPath fs newPath \<noteq> None then (None, fs)
               else
                 let newDir = \<lparr>idF = newId, name = nm, typeF = Directory, path = newPath,
                               parent = Some (idF parentN), permissions = ''rwxr-xr-x'',
                               owner = ''user'', groupF = ''user'', sizeF = 0,
                               created = DateObj now, modified = DateObj now,
                               content = None, children = Some [], isReadOnly = None\<rparr>
                 in (Some newDir,
                     fs\<lparr>nodes :=
                          AList.update (idF parentN)
                            (parentN\<lparr>children := Some (childrenOrEmpty parentN @ [newId])\<rparr>)
                            (AList.update newId newDir (nodes fs))\<rparr>))"

text \<open>
  \<^verbatim>\<open>collectDescendants\<close> and \<^verbatim>\<open>updatePaths\<close> walk the \<^verbatim>\<open>children\<close> lists recursively. On
  a children relation with a cycle the walk never ends (JavaScript stops it with a
  \<^verbatim>\<open>RangeError\<close> when the stack is full). The first argument bounds the depth of the
  walk, and \<open>None\<close> is the walk that went deeper. The operations start the walk with
  one more than the number of stored nodes: a deeper walk has entered some node twice.
\<close>

fun collectDescendants :: "nat \<Rightarrow> FileSystem \<Rightarrow> string \<Rightarrow> string list option" where
  "collectDescendants 0 fs nodeId = None"
| "collectDescendants (Suc d) fs nodeId =
     (case getNodeById fs nodeId of
        None \<Rightarrow> Some [nodeId]
      | Some n \<Rightarrow>
          (case children n of
             None \<Rightarrow> Some [nodeId]
           | Some cs \<Rightarrow>
               if typeF n = Directory
               then map_option (\<lambda>ds. nodeId # concat ds) (those (map (collectDescendants d fs) cs))
               else Some [nodeId]))"

definition truthy_id :: "string option \<Rightarrow> bool" where
  \<comment> \<open>truthiness of a \<^verbatim>\<open>string | null\<close>: \<^verbatim>\<open>null\<close> and the empty string are falsy\<close>
  "truthy_id x = (case x of None \<Rightarrow> False | Some s \<Rightarrow> s \<noteq> [])"

definition deleteNode :: "string \<Rightarrow> FileSystem \<Rightarrow> (bool \<times> FileSystem) option" where
  \<comment> \<open>\<open>None\<close>: the subtree walk did not end\<close>
  "deleteNode p fs =
     (case getNodeByPath fs p of
        None \<Rightarrow> Some (False, fs)
      | Some node \<Rightarrow>
          if isReadOnly node = Some True \<or> \<not> truthy_id (parent node) then Some (False, fs)
          else
            (case getNodeById fs (the (parent node)) of
               None \<Rightarrow> Some (False, fs)
             | Some parentN \<Rightarrow>
                 (case collectDescendants (Suc (length (nodes fs))) fs (idF node) of
                    None \<Rightarrow> None
                  | Some toDelete \<Rightarrow>
                      let newNodes = fold AList.delete toDelete (nodes fs);
                          newNodes' =
                            (case children parentN of
                               None \<Rightarrow> newNodes
                             | Some cs \<Rightarrow>
                                 AList.update (idF parentN)
                                   (parentN\<lparr>children := Some (filter (\<lambda>i. i \<noteq> idF node) cs)\<rparr>)
                                   newNodes)
                      in Some (True, fs\<lparr>nodes := newNodes'\<rparr>))))"

fun forEach_opt :: "('a \<Rightarrow> 's \<Rightarrow> 's option) \<Rightarrow> 'a list \<Rightarrow> 's \<Rightarrow> 's option" where
  \<comment> \<open>\<^verbatim>\<open>xs.forEach(f)\<close> for an \<open>f\<close> that updates the store and may not return\<close>
  "forEach_opt f [] s = Some s"
| "forEach_opt f (x # xs) s = (case f x s of None \<Rightarrow> None | Some s' \<Rightarrow> forEach_opt f xs s')"

fun updatePaths ::
  "nat \<Rightarrow> nat \<Rightarrow> string \<Rightarrow> string \<Rightarrow> string \<Rightarrow> string \<Rightarrow> string \<Rightarrow> FileSystem
     \<Rightarrow> FileSystem option" where
  \<comment> \<open>\<open>renamedId\<close> and \<open>newName\<close> are \<^verbatim>\<open>node.id\<close> and \<^verbatim>\<open>newName\<close> of the enclosing
      \<^verbatim>\<open>renameNode\<close>\<close>
  "updatePaths 0 now renamedId newName nodeId oldBasePath newBasePath fs = None"
| "updatePaths (Suc d) now renamedId newName nodeId oldBasePath newBasePath fs =
     (case getNodeById fs nodeId of
        None \<Rightarrow> Some fs
      | Some n \<Rightarrow>
          let updatedPath = js_replace (path n) oldBasePath newBasePath;
              fs' = fs\<lparr>nodes :=
                         AList.update nodeId
                           (n\<lparr>path := updatedPath,
                              name := (if nodeId = renamedId then newName else name n),
                              modified := DateObj now\<rparr>)
                           (nodes fs)\<rparr>
          in (case children n of
                None \<Rightarrow> Some fs'
              | Some cs \<Rightarrow>
                  if typeF n = Directory
                  then forEach_opt
                         (\<lambda>childId s.
                            updatePaths d now renamedId newName childId oldBasePath newBasePath s)
                         cs fs'
                  else Some fs'))"

definition renameNode ::
  "nat \<Rightarrow> string \<Rightarrow> string \<Rightarrow> FileSystem \<Rightarrow> (bool \<times> FileSystem) option" where
  \<comment> \<open>\<open>None\<close>: the subtree walk did not end\<close>
  "renameNode now p newName fs =
     (case getNodeByPath fs p of
        None \<Rightarrow> Some (False, fs)
      | Some node \<Rightarrow>
          if isReadOnly node = Some True then Some (False, fs)
          else
            let parentPath = getParentPath p;
                newPath = joinPath parentPath newName
            in if getNodeByPath fs newPath \<noteq> None then Some (False, fs)
               else map_option (\<lambda>fs'. (True, fs'))
                      (updatePaths (Suc (length (nodes fs))) now (idF node) newName
                         (idF node) (path node) newPath fs))"

definition moveNode :: "nat \<Rightarrow> string \<Rightarrow> string \<Rightarrow> FileSystem \<Rightarrow> bool \<times> FileSystem" where
  "moveNode now sourcePath destPath fs =
     (case (getNodeByPath fs sourcePath, getNodeByPath fs destPath) of
        (Some node, Some destParent) \<Rightarrow>
          if typeF destParent \<noteq> Directory then (False, fs)
          else if isReadOnly node = Some True then (False, fs)
          else
            (case (if truthy_id (parent node) then getNodeById fs (the (parent node)) else None) of
               None \<Rightarrow> (False, fs)
             | Some oldParent \<Rightarrow>
                 let newPath = joinPath destPath (name node)
                 in if getNodeByPath fs newPath \<noteq> None then (False, fs)
                    else
                      (True,
                       fs\<lparr>nodes :=
                            AList.update (idF destParent)
                              (destParent\<lparr>children :=
                                 Some (childrenOrEmpty destParent @ [idF node])\<rparr>)
                              (AList.update (idF oldParent)
                                 (oldParent\<lparr>children :=
                                    map_option (filter (\<lambda>i. i \<noteq> idF node)) (children oldParent)\<rparr>)
                                 (AList.update (idF node)
                                    (node\<lparr>path := newPath, parent := Some (idF destParent),
                                          modified := DateObj now\<rparr>)
                                    (nodes fs)))\<rparr>))
      | _ \<Rightarrow> (False, fs))"

definition updateFileContent ::
  "nat \<Rightarrow> string \<Rightarrow> string \<Rightarrow> FileSystem \<Rightarrow> bool \<times> FileSystem" where
  "updateFileContent now p newContent fs =
     (case getNodeByPath fs p of
        None \<Rightarrow> (False, fs)
      | Some node \<Rightarrow>
          if typeF node \<noteq> File then (False, fs)
          else if isReadOnly node = Some True then (False, fs)
          else (True,
                fs\<lparr>nodes :=
                     AList.update (idF node)
                       (node\<lparr>content := Some newContent, sizeF := length newContent,
                             modified := DateObj now\<rparr>)
                       (nodes fs)\<rparr>))"

definition readFile :: "FileSystem \<Rightarrow> string \<Rightarrow> string option" where
  \<comment> \<open>\<^verbatim>\<open>node.content || ''\<close>\<close>
  "readFile fs p =
     (case getNodeByPath fs p of
        None \<Rightarrow> None
      | Some node \<Rightarrow>
          if typeF node \<noteq> File then None
          else Some (case content node of None \<Rightarrow> [] | Some c \<Rightarrow> c))"

section \<open>The terminal store (\<^verbatim>\<open>stores/terminalStore.ts\<close>)\<close>

subsection \<open>More of JavaScript's strings\<close>

definition is_space :: "char \<Rightarrow> bool" where
  \<comment> \<open>the code units below 256 that \<^verbatim>\<open>\s\<close> and \<^verbatim>\<open>trim\<close> take for white space\<close>
  "is_space c = (c \<in> {CHR 0x09, CHR 0x0A, CHR 0x0B, CHR 0x0C, CHR 0x0D, CHR 0x20, CHR 0xA0})"

definition js_trim :: "string \<Rightarrow> string" where
  "js_trim s = rev (dropWhile is_space (rev (dropWhile is_space s)))"

definition lower_char :: "char \<Rightarrow> char" where
  "lower_char c =
     (case map_of (zip ''ABCDEFGHIJKLMNOPQRSTUVWXYZ'' ''abcdefghijklmnopqrstuvwxyz'') c of
        None \<Rightarrow> c | Some l \<Rightarrow> l)"

definition upper_char :: "char \<Rightarrow> char" where
  "upper_char c =
     (case map_of (zip ''abcdefghijklmnopqrstuvwxyz'' ''ABCDEFGHIJKLMNOPQRSTUVWXYZ'') c of
        None \<Rightarrow> c | Some u \<Rightarrow> u)"

definition toLowerCase :: "string \<Rightarrow> string" where
  \<comment> \<open>on ASCII text\<close>
  "toLowerCase s = map lower_char s"

definition toUpperCase :: "string \<Rightarrow> string" where
  \<comment> \<open>on ASCII text\<close>
  "toUpperCase s = map upper_char s"

definition first_word :: "string \<Rightarrow> string" where
  \<comment> \<open>\<^verbatim>\<open>input.split(/\s+/)[0]\<close>: the text before the first white space\<close>
  "first_word s = takeWhile (\<lambda>c. \<not> is_space c) s"

definition dq :: char where
  "dq = CHR 0x22"

definition sq :: string where
  "sq = [CHR 0x27]"

fun match_tokens :: "bool \<Rightarrow> string \<Rightarrow> string \<Rightarrow> string list" where
  \<comment> \<open>\<^verbatim>\<open>s.match(/(?:[^\s"]+|"[^"]*")+/g) || []\<close>: a token is a longest run of characters
      that are neither white space nor a double quote, and of quoted stretches
      \<^verbatim>\<open>"..."\<close>. The flag says the scan is inside a quoted stretch, \<open>cur\<close> is the token
      read so far. A double quote with no closing partner belongs to no token.\<close>
  "match_tokens inQuote cur [] = (if cur = [] then [] else [cur])"
| "match_tokens True cur (c # cs) =
     (if c = dq then match_tokens False (cur @ [c]) cs else match_tokens True (cur @ [c]) cs)"
| "match_tokens False cur (c # cs) =
     (if c = dq
      then (if dq \<in> set cs then match_tokens True (cur @ [c]) cs
            else (if cur = [] then [] else [cur]) @ match_tokens False [] cs)
      else if is_space c then (if cur = [] then [] else [cur]) @ match_tokens False [] cs
      else match_tokens False (cur @ [c]) cs)"

definition strip_dquotes :: "string \<Rightarrow> string" where
  \<comment> \<open>\<^verbatim>\<open>a.replace(/^"|"$/g, '')\<close>: one double quote off the front, one off the end of
      what is left\<close>
  "strip_dquotes a =
     (let a' = (if a \<noteq> [] \<and> hd a = dq then tl a else a)
      in if a' \<noteq> [] \<and> last a' = dq then butlast a' else a')"

definition strip_quotes :: "string \<Rightarrow> string" where
  \<comment> \<open>\<^verbatim>\<open>text.replace(/^["']|["']$/g, '')\<close>\<close>
  "strip_quotes a =
     (let a' = (if a \<noteq> [] \<and> (hd a = dq \<or> [hd a] = sq) then tl a else a)
      in if a' \<noteq> [] \<and> (last a' = dq \<or> [last a'] = sq) then butlast a' else a')"

definition inherited_keys :: "string list" where
  \<comment> \<open>the members of \<^verbatim>\<open>Object.prototype\<close>: a lookup \<^verbatim>\<open>obj[key]\<close> in a plain object finds
      them under these keys although the object does not list them, and every one of
      them is truthy\<close>
  "inherited_keys =
     [''constructor'', ''__defineGetter__'', ''__defineSetter__'', ''hasOwnProperty'',
      ''__lookupGetter__'', ''__lookupSetter__'', ''isPrototypeOf'', ''propertyIsEnumerable'',
      ''toString'', ''valueOf'', ''__proto__'', ''toLocaleString'']"

subsection \<open>State\<close>

record TerminalCommand =
  idC :: string
  inputC :: string
  outputC :: string
  exitCodeC :: int
  timestampC :: nat
  workingDirectoryC :: string

record TerminalState =
  history :: "TerminalCommand list"
  commandHistory :: "string list"
  historyIndex :: int
  currentInput :: string
  workingDirectory :: string
  environment :: "(string \<times> string) list"
  aliases :: "(string \<times> string) list"

text \<open>
  Of \<^verbatim>\<open>systemStore\<close> the shell uses \<^verbatim>\<open>updateIntegrity\<close>, \<^verbatim>\<open>updateStats\<close> and the user's
  name. \<open>integrityDeltas\<close> is not a field of the store: it lists the arguments of the
  calls of \<^verbatim>\<open>updateIntegrity\<close>, in order. The machine state and the notifications of
  that store are left out.
\<close>

record SystemStore =
  integrity :: int
  integrityDeltas :: "int list"
  username :: "string option"          \<comment> \<open>\<^verbatim>\<open>user?.username\<close>\<close>
  total_commands :: "nat option"       \<comment> \<open>\<^verbatim>\<open>user?.stats.total_commands\<close>; \<open>None\<close>: no user\<close>

definition updateIntegrity :: "int \<Rightarrow> SystemStore \<Rightarrow> SystemStore" where
  "updateIntegrity delta s =
     s\<lparr>integrity := max 0 (min 100 (integrity s + delta)),
       integrityDeltas := integrityDeltas s @ [delta]\<rparr>"

record World =
  filesystem :: FileSystem
  terminal :: TerminalState
  system :: SystemStore
  uuidCalls :: nat                     \<comment> \<open>how many identifiers \<^verbatim>\<open>uuidv4\<close> has handed out\<close>

type_synonym matcher = "string \<Rightarrow> nat \<Rightarrow> nat option"
  \<comment> \<open>a compiled regular expression: for a line and a start index, the end index of the
      leftmost match that starts at or after the start index\<close>

record Host =
  uuidv4 :: "nat \<Rightarrow> string"            \<comment> \<open>the \<open>k\<close>-th identifier\<close>
  clock :: nat                         \<comment> \<open>\<^verbatim>\<open>new Date()\<close>\<close>
  newRegExp :: "string \<Rightarrow> matcher option"
    \<comment> \<open>\<^verbatim>\<open>new RegExp(pattern, 'gi')\<close>; \<open>None\<close> when it throws a \<^verbatim>\<open>SyntaxError\<close>\<close>
  displayText :: "string \<Rightarrow> string list \<Rightarrow> World \<Rightarrow> string \<times> int"
    \<comment> \<open>output and exit code of the handlers that only display (see \<open>run_builtin\<close>)\<close>

datatype exec_error =
    RangeError            \<comment> \<open>a subtree walk that does not end\<close>
  | OutsideTable string   \<comment> \<open>a lookup answered by \<^verbatim>\<open>Object.prototype\<close>, not by the table\<close>

type_synonym handler_result = "exec_error + ((string \<times> int) \<times> World)"

subsection \<open>Command implementations\<close>

definition arg0_missing :: "string list \<Rightarrow> bool" where
  \<comment> \<open>\<^verbatim>\<open>!args[0]\<close>: no first argument, or an empty one\<close>
  "arg0_missing args = (case args of [] \<Rightarrow> True | a # _ \<Rightarrow> a = [])"

definition cmd_pwd :: "string list \<Rightarrow> World \<Rightarrow> handler_result" where
  "cmd_pwd args w = Inr ((currentDirPath (filesystem w), 0), w)"

definition cmd_cd :: "string list \<Rightarrow> World \<Rightarrow> handler_result" where
  "cmd_cd args w =
     (let target = (if arg0_missing args then ''~'' else hd args);
          (success, fs') = setCurrentDirectory target (filesystem w)
      in Inr ((if success then [] else ''cd: '' @ target @ '': No such directory'',
               if success then 0 else 1),
              w\<lparr>filesystem := fs'\<rparr>))"

definition cmd_cat :: "string list \<Rightarrow> World \<Rightarrow> handler_result" where
  "cmd_cat args w =
     (if arg0_missing args then Inr ((''cat: missing operand'', 1), w)
      else (case readFile (filesystem w) (hd args) of
              None \<Rightarrow> Inr ((''cat: '' @ hd args @ '': No such file'', 1), w)
            | Some c \<Rightarrow> Inr ((c, 0), w)))"

definition cmd_touch :: "Host \<Rightarrow> string list \<Rightarrow> World \<Rightarrow> handler_result" where
  "cmd_touch h args w =
     (if arg0_missing args then Inr ((''touch: missing operand'', 1), w)
      else
        let fs = filesystem w;
            p = resolvePath fs (hd args)
        in if getNodeByPath fs p \<noteq> None then Inr (([], 0), w)
           else
             let parentPath = getParentPath p;
                 nm = last (js_split CHR ''/'' p);
                 (result, fs') = createFile (uuidv4 h (uuidCalls w)) (clock h) nm parentPath None fs
             in if result = None
                then Inr ((''touch: cannot create '' @ sq @ hd args @ sq, 1), w\<lparr>filesystem := fs'\<rparr>)
                else Inr (([], 0), w\<lparr>filesystem := fs', uuidCalls := Suc (uuidCalls w)\<rparr>))"

fun mkdir_loop :: "Host \<Rightarrow> bool \<Rightarrow> string list \<Rightarrow> World \<Rightarrow> (string \<times> int) \<times> World" where
  \<comment> \<open>\<^verbatim>\<open>for (const target of targetPaths)\<close> and the \<^verbatim>\<open>return\<close> after it\<close>
  "mkdir_loop h createParents [] w = (([], 0), w)"
| "mkdir_loop h createParents (target # rest) w =
     (let fs = filesystem w;
          p = resolvePath fs target;
          parentPath = getParentPath p;
          nm = last (js_split CHR ''/'' p);
          (result, fs') = createDirectory (uuidv4 h (uuidCalls w)) (clock h) nm parentPath fs;
          w' = w\<lparr>filesystem := fs',
                 uuidCalls := (if result = None then uuidCalls w else Suc (uuidCalls w))\<rparr>
      in if result = None \<and> \<not> createParents
         then ((''mkdir: cannot create directory '' @ sq @ target @ sq, 1), w')
         else mkdir_loop h createParents rest w')"

definition cmd_mkdir :: "Host \<Rightarrow> string list \<Rightarrow> World \<Rightarrow> handler_result" where
  "cmd_mkdir h args w =
     (if arg0_missing args then Inr ((''mkdir: missing operand'', 1), w)
      else Inr (mkdir_loop h (''-p'' \<in> set args)
                  (filter (\<lambda>a. \<not> startsWith a ''-'') args) w))"

fun rm_loop :: "bool \<Rightarrow> string list \<Rightarrow> World \<Rightarrow> handler_result" where
  \<comment> \<open>\<^verbatim>\<open>for (const target of targets)\<close> and the \<^verbatim>\<open>return\<close> after it; what \<^verbatim>\<open>deleteNode\<close>
      returns is not looked at\<close>
  "rm_loop recursive [] w = Inr (([], 0), w)"
| "rm_loop recursive (target # rest) w =
     (case getNodeByPath (filesystem w) target of
        None \<Rightarrow>
          Inr ((''rm: cannot remove '' @ sq @ target @ sq @ '': No such file or directory'', 1), w)
      | Some node \<Rightarrow>
          if typeF node = Directory \<and> \<not> recursive
          then Inr ((''rm: cannot remove '' @ sq @ target @ sq @ '': Is a directory'', 1), w)
          else
            let w1 = (if startsWith (path node) ''/system'' \<or> path node = ''/home/user''
                      then w\<lparr>system := updateIntegrity (- 25) (system w)\<rparr> else w)
            in (case deleteNode target (filesystem w1) of
                  None \<Rightarrow> Inl RangeError
                | Some (deleted, fs') \<Rightarrow> rm_loop recursive rest (w1\<lparr>filesystem := fs'\<rparr>)))"

definition cmd_rm :: "string list \<Rightarrow> World \<Rightarrow> handler_result" where
  "cmd_rm args w =
     (if arg0_missing args then Inr ((''rm: missing operand'', 1), w)
      else rm_loop (''-r'' \<in> set args \<or> ''-rf'' \<in> set args)
             (filter (\<lambda>a. \<not> startsWith a ''-'') args) w)"

definition cmd_echo :: "string list \<Rightarrow> World \<Rightarrow> handler_result" where
  "cmd_echo args w = Inr ((strip_quotes (js_join '' '' args), 0), w)"

definition cmd_whoami :: "string list \<Rightarrow> World \<Rightarrow> handler_result" where
  \<comment> \<open>\<^verbatim>\<open>user?.username || 'user'\<close>\<close>
  "cmd_whoami args w =
     Inr (((case username (system w) of None \<Rightarrow> ''user'' | Some u \<Rightarrow> if u = [] then ''user'' else u),
           0), w)"

definition cmd_uname :: "string list \<Rightarrow> World \<Rightarrow> handler_result" where
  "cmd_uname args w =
     (if ''-a'' \<in> set args then Inr ((''WizardOS 1.0.0 wizard-vm x86_64 GNU/Linux'', 0), w)
      else Inr ((''WizardOS'', 0), w))"

definition regex_test :: "matcher \<Rightarrow> string \<Rightarrow> nat \<Rightarrow> bool \<times> nat" where
  \<comment> \<open>\<^verbatim>\<open>regex.test(line)\<close> for a regular expression with the \<^verbatim>\<open>g\<close> flag: the search
      starts at \<^verbatim>\<open>regex.lastIndex\<close> (the third argument); a match leaves its end index in
      \<^verbatim>\<open>lastIndex\<close>, a failure leaves 0. The result is the answer and the new
      \<^verbatim>\<open>lastIndex\<close>.\<close>
  "regex_test m line lastIndex =
     (if lastIndex > length line then (False, 0)
      else (case m line lastIndex of None \<Rightarrow> (False, 0) | Some e \<Rightarrow> (True, e)))"

fun filter_test :: "matcher \<Rightarrow> nat \<Rightarrow> string list \<Rightarrow> string list" where
  \<comment> \<open>\<^verbatim>\<open>lines.filter(line => regex.test(line))\<close>: one \<^verbatim>\<open>regex\<close> object, and so one
      \<^verbatim>\<open>lastIndex\<close>, for all the lines\<close>
  "filter_test m lastIndex [] = []"
| "filter_test m lastIndex (line # rest) =
     (case regex_test m line lastIndex of
        (True, lastIndex') \<Rightarrow> line # filter_test m lastIndex' rest
      | (False, lastIndex') \<Rightarrow> filter_test m lastIndex' rest)"

definition cmd_grep :: "Host \<Rightarrow> string list \<Rightarrow> World \<Rightarrow> handler_result" where
  "cmd_grep h args w =
     (if length args < 2 then Inr ((''grep: missing pattern or file'', 1), w)
      else
        let pattern = args ! 0; file = args ! 1
        in (case readFile (filesystem w) file of
              None \<Rightarrow> Inr ((''grep: '' @ file @ '': No such file'', 1), w)
            | Some c \<Rightarrow>
                (case newRegExp h pattern of
                   None \<Rightarrow> Inr ((''grep: invalid pattern '' @ sq @ pattern @ sq, 2), w)
                 | Some regex \<Rightarrow>
                     let matches = filter_test regex 0 (js_split CHR 0x0A c)
                     in Inr ((js_join [CHR 0x0A] matches, if length matches > 0 then 0 else 1), w))))"

definition command_names :: "string list" where
  \<comment> \<open>the keys of the table \<^verbatim>\<open>commands\<close>\<close>
  "command_names =
     [''help'', ''pwd'', ''cd'', ''ls'', ''cat'', ''touch'', ''mkdir'', ''rm'', ''echo'', ''whoami'',
      ''hostname'', ''uname'', ''date'', ''uptime'', ''clear'', ''history'', ''exit'', ''head'',
      ''tail'', ''wc'', ''grep'', ''man'', ''rm -rf /'']"

definition in_commands :: "string \<Rightarrow> bool" where
  \<comment> \<open>\<^verbatim>\<open>commands[cmd]\<close> is truthy\<close>
  "in_commands cmd = (cmd \<in> set command_names \<or> cmd \<in> set inherited_keys)"

definition cmd_man :: "string list \<Rightarrow> World \<Rightarrow> handler_result" where
  "cmd_man args w =
     (if arg0_missing args then Inr ((''What manual page do you want?'', 1), w)
      else if \<not> in_commands (hd args) then Inr ((''No manual entry for '' @ hd args, 1), w)
      else Inr ((toUpperCase (hd args) @ ''(1) - Type '' @ sq @ ''help'' @ sq @ '' for command list'',
                 0), w))"

definition cmd_rm_rf_root :: "string list \<Rightarrow> World \<Rightarrow> handler_result" where
  \<comment> \<open>the entry under the key \<^verbatim>\<open>'rm -rf /'\<close>\<close>
  "cmd_rm_rf_root args w =
     Inr ((''rm: destroying filesystem...'', 0), w\<lparr>system := updateIntegrity (- 100) (system w)\<rparr>)"

definition display_only :: "string list" where
  \<comment> \<open>handlers that call no mutating operation of any store; their text depends on the
      locale, the clock or number formatting and is the host's \<open>displayText\<close>\<close>
  "display_only = [''help'', ''ls'', ''date'', ''uptime'', ''history'', ''head'', ''tail'', ''wc'']"

definition run_command :: "Host \<Rightarrow> string \<Rightarrow> string list \<Rightarrow> World \<Rightarrow> handler_result" where
  \<comment> \<open>\<^verbatim>\<open>commands[cmd](args, fs)\<close> for a \<open>cmd\<close> with \<open>in_commands cmd\<close>\<close>
  "run_command h cmd args w =
     (if cmd = ''pwd'' then cmd_pwd args w
      else if cmd = ''cd'' then cmd_cd args w
      else if cmd = ''cat'' then cmd_cat args w
      else if cmd = ''touch'' then cmd_touch h args w
      else if cmd = ''mkdir'' then cmd_mkdir h args w
      else if cmd = ''rm'' then cmd_rm args w
      else if cmd = ''echo'' then cmd_echo args w
      else if cmd = ''whoami'' then cmd_whoami args w
      else if cmd = ''hostname'' then Inr ((''wizard-vm'', 0), w)
      else if cmd = ''uname'' then cmd_uname args w
      else if cmd = ''clear'' then Inr ((''__CLEAR__'', 0), w)
      else if cmd = ''exit'' then Inr ((''__EXIT__'', 0), w)
      else if cmd = ''grep'' then cmd_grep h args w
      else if cmd = ''man'' then cmd_man args w
      else if cmd = ''rm -rf /'' then cmd_rm_rf_root args w
      else if cmd \<in> set display_only then Inr (displayText h cmd args w, w)
      else Inl (OutsideTable cmd))"

subsection \<open>The interpreter\<close>

definition executeCommand ::
  "Host \<Rightarrow> string \<Rightarrow> World \<Rightarrow> exec_error + (TerminalCommand \<times> World)" where
  "executeCommand h rawInput w =
     (let inp = js_trim rawInput;
          firstWord = first_word inp
      in if firstWord \<in> set inherited_keys then Inl (OutsideTable firstWord)
         else
           let expandedInput =
                 (case map_of (aliases (terminal w)) firstWord of
                    None \<Rightarrow> inp
                  | Some alias \<Rightarrow> if alias = [] then inp else js_replace inp firstWord alias);
               parts = match_tokens False [] expandedInput;
               cmd = (case parts of [] \<Rightarrow> [] | p # ps \<Rightarrow> toLowerCase p);
               args = map strip_dquotes (drop 1 parts)
           in (case (if cmd = [] then Inr (([], 0), w)
                     else if in_commands cmd then run_command h cmd args w
                     else Inr ((cmd @ '': command not found'', 127), w)) of
                 Inl e \<Rightarrow> Inl e
               | Inr ((out, code), w1) \<Rightarrow>
                   let command =
                         \<lparr>idC = uuidv4 h (uuidCalls w1), inputC = rawInput, outputC = out,
                          exitCodeC = code, timestampC = clock h,
                          workingDirectoryC = currentDirPath (filesystem w1)\<rparr>;
                       sys' = (if cmd \<noteq> []
                               then (system w1)\<lparr>total_commands :=
                                       map_option Suc (total_commands (system w1))\<rparr>
                               else system w1);
                       t = terminal w1;
                       t' = t\<lparr>history := (if out = ''__CLEAR__'' then [] else history t @ [command]),
                              commandHistory :=
                                (if cmd \<noteq> []
                                 then filter (\<lambda>c. c \<noteq> rawInput) (commandHistory t) @ [rawInput]
                                 else commandHistory t),
                              historyIndex := - 1,
                              currentInput := [],
                              workingDirectory := currentDirPath (filesystem w1)\<rparr>
                   in Inr (command,
                           w1\<lparr>terminal := t', system := sys', uuidCalls := Suc (uuidCalls w1)\<rparr>)))"

subsection \<open>History navigation\<close>

datatype direction = Up | Down

definition history_at :: "string list \<Rightarrow> int \<Rightarrow> string" where
  \<comment> \<open>\<^verbatim>\<open>commandHistory[newIndex] || ''\<close>: an index outside the array reads \<^verbatim>\<open>undefined\<close>\<close>
  "history_at xs i = (if 0 \<le> i \<and> i < int (length xs) then xs ! nat i else [])"

definition navigateHistory :: "direction \<Rightarrow> TerminalState \<Rightarrow> string \<times> TerminalState" where
  "navigateHistory dir t =
     (if length (commandHistory t) = 0 then (currentInput t, t)
      else
        let n = int (length (commandHistory t));
            newIndex =
              (case dir of
                 Up \<Rightarrow> if historyIndex t = - 1 then n - 1 else max 0 (historyIndex t - 1)
               | Down \<Rightarrow> if historyIndex t = - 1 then - 1 else min (n - 1) (historyIndex t + 1))
        in if dir = Down \<and> historyIndex t = n - 1
           then ([], t\<lparr>historyIndex := - 1, currentInput := []\<rparr>)
           else
             let newInput = history_at (commandHistory t) newIndex
             in (newInput, t\<lparr>historyIndex := newIndex, currentInput := newInput\<rparr>))"

definition setCurrentInput :: "string \<Rightarrow> TerminalState \<Rightarrow> TerminalState" where
  "setCurrentInput inp t = t\<lparr>currentInput := inp, historyIndex := - 1\<rparr>"

section \<open>Snapshots (\<^verbatim>\<open>exportFilesystem\<close>, \<^verbatim>\<open>importFilesystem\<close>)\<close>

text \<open>
  \<^verbatim>\<open>JSON.stringify\<close> and \<^verbatim>\<open>JSON.parse\<close> belong to the platform. The model splits them in
  two: the JSON value (\<open>json\<close>) that stands between an object and its text, and the text
  layer, which is a parameter (\<open>stringify\<close>, and \<open>parse\<close> with \<open>None\<close> for the
  \<^verbatim>\<open>SyntaxError\<close>). \<open>encodeFileSystem\<close> is the value \<^verbatim>\<open>JSON.stringify\<close> writes for a
  filesystem: fields that are \<^verbatim>\<open>undefined\<close> are left out, \<^verbatim>\<open>null\<close> stays, a \<^verbatim>\<open>Date\<close> is
  written as its ISO string (\<open>toISO\<close>, a parameter too).
\<close>

datatype json =
    JNull | JBool bool | JNum int | JStr string | JArr "json list" | JObj "(string \<times> json) list"

definition encodeDate :: "(nat \<Rightarrow> string) \<Rightarrow> js_date \<Rightarrow> json" where
  "encodeDate toISO d = (case d of DateObj t \<Rightarrow> JStr (toISO t) | DateString s \<Rightarrow> JStr s)"

definition encodeNode :: "(nat \<Rightarrow> string) \<Rightarrow> FileNode \<Rightarrow> json" where
  "encodeNode toISO n =
     JObj ([(''id'', JStr (idF n)),
            (''name'', JStr (name n)),
            (''type'', JStr (case typeF n of File \<Rightarrow> ''file'' | Directory \<Rightarrow> ''directory'')),
            (''path'', JStr (path n)),
            (''parent'', (case parent n of None \<Rightarrow> JNull | Some i \<Rightarrow> JStr i)),
            (''permissions'', JStr (permissions n)),
            (''owner'', JStr (owner n)),
            (''group'', JStr (groupF n)),
            (''size'', JNum (int (sizeF n))),
            (''created'', encodeDate toISO (created n)),
            (''modified'', encodeDate toISO (modified n))]
           @ (case content n of None \<Rightarrow> [] | Some c \<Rightarrow> [(''content'', JStr c)])
           @ (case children n of None \<Rightarrow> [] | Some cs \<Rightarrow> [(''children'', JArr (map JStr cs))])
           @ (case isReadOnly n of None \<Rightarrow> [] | Some b \<Rightarrow> [(''isReadOnly'', JBool b)]))"

definition encodeFileSystem :: "(nat \<Rightarrow> string) \<Rightarrow> FileSystem \<Rightarrow> json" where
  "encodeFileSystem toISO fs =
     JObj [(''nodes'', JObj (map (\<lambda>(k, n). (k, encodeNode toISO n)) (nodes fs))),
           (''root'', JStr (root fs)),
           (''currentDirectory'', JStr (currentDirectory fs))]"

text \<open>
  \<^verbatim>\<open>importFilesystem\<close> stores whatever \<^verbatim>\<open>JSON.parse\<close> returns. The store's field is
  declared a \<^verbatim>\<open>FileSystem\<close>, and the operations above are the store's behaviour on a value
  of that shape. \<open>decodeFileSystem\<close> reads a JSON value at that type (it is the model's
  typing of the value, not a step of the code), and \<open>stored\<close> keeps a value of any
  other shape as it is.
\<close>

fun asStr :: "json \<Rightarrow> string option" where
  "asStr (JStr s) = Some s"
| "asStr _ = None"

fun asNat :: "json \<Rightarrow> nat option" where
  "asNat (JNum i) = (if 0 \<le> i then Some (nat i) else None)"
| "asNat _ = None"

fun asType :: "json \<Rightarrow> node_type option" where
  "asType (JStr s) =
     (if s = ''file'' then Some File else if s = ''directory'' then Some Directory else None)"
| "asType _ = None"

fun asNullable :: "json \<Rightarrow> string option option" where
  "asNullable JNull = Some None"
| "asNullable (JStr s) = Some (Some s)"
| "asNullable _ = None"

fun asDate :: "json \<Rightarrow> js_date option" where
  "asDate (JStr s) = Some (DateString s)"
| "asDate _ = None"

fun asStrList :: "json \<Rightarrow> string list option" where
  "asStrList (JArr xs) = those (map asStr xs)"
| "asStrList _ = None"

fun asBool :: "json \<Rightarrow> bool option" where
  "asBool (JBool b) = Some b"
| "asBool _ = None"

definition required :: "(string \<times> json) list \<Rightarrow> string \<Rightarrow> (json \<Rightarrow> 'a option) \<Rightarrow> 'a option" where
  "required kvs k rd = (case map_of kvs k of None \<Rightarrow> None | Some v \<Rightarrow> rd v)"

definition optional ::
  "(string \<times> json) list \<Rightarrow> string \<Rightarrow> (json \<Rightarrow> 'a option) \<Rightarrow> 'a option option" where
  "optional kvs k rd = (case map_of kvs k of None \<Rightarrow> Some None | Some v \<Rightarrow> map_option Some (rd v))"

fun decodeNode :: "json \<Rightarrow> FileNode option" where
  "decodeNode (JObj kvs) =
     do {
       i \<leftarrow> required kvs ''id'' asStr;
       nm \<leftarrow> required kvs ''name'' asStr;
       ty \<leftarrow> required kvs ''type'' asType;
       pa \<leftarrow> required kvs ''path'' asStr;
       par \<leftarrow> required kvs ''parent'' asNullable;
       perm \<leftarrow> required kvs ''permissions'' asStr;
       ow \<leftarrow> required kvs ''owner'' asStr;
       gr \<leftarrow> required kvs ''group'' asStr;
       sz \<leftarrow> required kvs ''size'' asNat;
       cr \<leftarrow> required kvs ''created'' asDate;
       mo \<leftarrow> required kvs ''modified'' asDate;
       co \<leftarrow> optional kvs ''content'' asStr;
       ch \<leftarrow> optional kvs ''children'' asStrList;
       ro \<leftarrow> optional kvs ''isReadOnly'' asBool;
       Some \<lparr>idF = i, name = nm, typeF = ty, path = pa, parent = par, permissions = perm,
             owner = ow, groupF = gr, sizeF = sz, created = cr, modified = mo,
             content = co, children = ch, isReadOnly = ro\<rparr>
     }"
| "decodeNode _ = None"

fun decodeNodes :: "json \<Rightarrow> (string \<times> FileNode) list option" where
  "decodeNodes (JObj kvs) = those (map (\<lambda>(k, v). map_option (Pair k) (decodeNode v)) kvs)"
| "decodeNodes _ = None"

fun decodeFileSystem :: "json \<Rightarrow> FileSystem option" where
  "decodeFileSystem (JObj kvs) =
     do {
       ns \<leftarrow> required kvs ''nodes'' decodeNodes;
       r \<leftarrow> required kvs ''root'' asStr;
       cd \<leftarrow> required kvs ''currentDirectory'' asStr;
       Some \<lparr>nodes = ns, root = r, currentDirectory = cd\<rparr>
     }"
| "decodeFileSystem _ = None"

datatype stored = Tree FileSystem | NotATree json
  \<comment> \<open>what the store's \<^verbatim>\<open>filesystem\<close> field holds\<close>

definition asStored :: "json \<Rightarrow> stored" where
  "asStored j = (case decodeFileSystem j of None \<Rightarrow> NotATree j | Some fs \<Rightarrow> Tree fs)"

definition storedJSON :: "(nat \<Rightarrow> string) \<Rightarrow> stored \<Rightarrow> json" where
  "storedJSON toISO st = (case st of Tree fs \<Rightarrow> encodeFileSystem toISO fs | NotATree j \<Rightarrow> j)"

definition exportFilesystem :: "(json \<Rightarrow> string) \<Rightarrow> (nat \<Rightarrow> string) \<Rightarrow> stored \<Rightarrow> string" where
  \<comment> \<open>\<^verbatim>\<open>JSON.stringify(get().filesystem)\<close>\<close>
  "exportFilesystem stringify toISO st = stringify (storedJSON toISO st)"

definition importFilesystem :: "(string \<Rightarrow> json option) \<Rightarrow> string \<Rightarrow> stored \<Rightarrow> bool \<times> stored" where
  \<comment> \<open>\<^verbatim>\<open>try { const fs = JSON.parse(data); set({ filesystem: fs }); return true; }
      catch { return false; }\<close>\<close>
  "importFilesystem parse data st =
     (case parse data of None \<Rightarrow> (False, st) | Some j \<Rightarrow> (True, asStored j))"

definition asDateString :: "(nat \<Rightarrow> string) \<Rightarrow> js_date \<Rightarrow> js_date" where
  "asDateString toISO d = (case d of DateObj t \<Rightarrow> DateString (toISO t) | DateString s \<Rightarrow> DateString s)"

definition jsonDates :: "(nat \<Rightarrow> string) \<Rightarrow> FileNode \<Rightarrow> FileNode" where
  \<comment> \<open>a node after a trip through JSON: its dates are ISO strings\<close>
  "jsonDates toISO n =
     n\<lparr>created := asDateString toISO (created n), modified := asDateString toISO (modified n)\<rparr>"

section \<open>Invariants and a starting state\<close>

definition path_ok :: "FileSystem \<Rightarrow> FileNode \<Rightarrow> bool" where
  \<comment> \<open>the cached path of a node is its parent's path joined with its name, as
      \<^verbatim>\<open>createNode\<close>, \<^verbatim>\<open>createFile\<close> and \<^verbatim>\<open>createDirectory\<close> compute it; the node without
      parent has the path \<^verbatim>\<open>/\<close>\<close>
  "path_ok fs n =
     (case parent n of
        None \<Rightarrow> path n = ''/''
      | Some pid \<Rightarrow>
          (case getNodeById fs pid of
             None \<Rightarrow> False
           | Some p \<Rightarrow> path n = joinPath (path p) (name n)))"

definition path_invariant :: "FileSystem \<Rightarrow> bool" where
  "path_invariant fs = list_all (path_ok fs) (map snd (nodes fs))"

definition createNode ::
  "string \<Rightarrow> nat \<Rightarrow> string \<Rightarrow> node_type \<Rightarrow> string \<Rightarrow> string option \<Rightarrow> string option
     \<Rightarrow> bool option \<Rightarrow> FileNode" where
  \<comment> \<open>the helper of \<^verbatim>\<open>createInitialFilesystem\<close>; the first two arguments are the identifier
      and the time\<close>
  "createNode newId now nm ty parentPath parentId contentArg ro =
     \<lparr>idF = newId, name = nm, typeF = ty, path = joinPath parentPath nm, parent = parentId,
      permissions = (if ty = Directory then ''rwxr-xr-x'' else ''rw-r--r--''),
      owner = ''user'', groupF = ''user'',
      sizeF = (case contentArg of None \<Rightarrow> 0 | Some c \<Rightarrow> length c),
      created = DateObj now, modified = DateObj now, content = contentArg,
      children = (if ty = Directory then Some [] else None), isReadOnly = ro\<rparr>"

definition seed_part :: FileSystem where
  \<comment> \<open>the part of the initial filesystem under \<^verbatim>\<open>/system\<close>, \<^verbatim>\<open>/home/user\<close> and
      \<^verbatim>\<open>/data/logs\<close>, built the way \<^verbatim>\<open>createInitialFilesystem\<close> builds it, with short
      identifiers and a one-line log\<close>
  "seed_part =
     \<lparr>nodes =
        [(''id-root'', (createNode ''id-root'' 0 [] Directory [] None None None)
                        \<lparr>path := ''/'', children := Some [''id-system'', ''id-home'', ''id-data'']\<rparr>),
         (''id-system'', createNode ''id-system'' 0 ''system'' Directory ''/'' (Some ''id-root'') None
                          (Some True)),
         (''id-home'', (createNode ''id-home'' 0 ''home'' Directory ''/'' (Some ''id-root'') None None)
                        \<lparr>children := Some [''id-user'']\<rparr>),
         (''id-user'', createNode ''id-user'' 0 ''user'' Directory ''/home'' (Some ''id-home'') None None),
         (''id-data'', (createNode ''id-data'' 0 ''data'' Directory ''/'' (Some ''id-root'') None None)
                        \<lparr>children := Some [''id-logs'']\<rparr>),
         (''id-logs'', (createNode ''id-logs'' 0 ''logs'' Directory ''/data'' (Some ''id-data'') None None)
                        \<lparr>children := Some [''id-syslog'']\<rparr>),
         (''id-syslog'', createNode ''id-syslog'' 0 ''system.log'' File ''/data/logs'' (Some ''id-logs'')
                          (Some ''WIZARD OS initialized'') None)],
      root = ''id-root'',
      currentDirectory = ''id-user''\<rparr>"

fun find_plain :: "string \<Rightarrow> string \<Rightarrow> nat \<Rightarrow> nat \<Rightarrow> nat option" where
  \<comment> \<open>the end of the first occurrence of \<open>pat\<close>, ignoring case, that starts at an index
      from \<open>start\<close> on; \<open>i\<close> is the index of the head of the text still to scan\<close>
  "find_plain pat [] i start = (if pat = [] \<and> start \<le> i then Some i else None)"
| "find_plain pat (c # cs) i start =
     (if start \<le> i \<and> toLowerCase (take (length pat) (c # cs)) = toLowerCase pat
      then Some (i + length pat)
      else find_plain pat cs (Suc i) start)"

definition plainRegExp :: "string \<Rightarrow> matcher option" where
  \<comment> \<open>\<^verbatim>\<open>new RegExp(pattern, 'gi')\<close> as far as patterns of letters and digits go: such a
      pattern matches its own text, ignoring case. This instance knows no other
      pattern.\<close>
  "plainRegExp pat =
     (if list_all (\<lambda>c. c \<in> set ''abcdefghijklmnopqrstuvwxyzABCDEFGHIJKLMNOPQRSTUVWXYZ0123456789'') pat
      then Some (\<lambda>line start. find_plain pat line 0 start)
      else None)"

definition demo_host :: Host where
  "demo_host =
     \<lparr>uuidv4 = (\<lambda>k. ''uuid-'' @ replicate k CHR ''i''), clock = 1,
      newRegExp = plainRegExp, displayText = (\<lambda>cmd args w. ([], 0))\<rparr>"

definition demo_world :: World where
  \<comment> \<open>the initial state of the terminal store and a full integrity, around \<open>seed_part\<close>\<close>
  "demo_world =
     \<lparr>filesystem = seed_part,
      terminal =
        \<lparr>history = [], commandHistory = [], historyIndex = - 1, currentInput = [],
         workingDirectory = ''/home/user'',
         environment =
           [(''HOME'', ''/home/user''), (''USER'', ''user''), (''SHELL'', ''/bin/bash''),
            (''PATH'', ''/usr/local/bin:/usr/bin:/bin''), (''PS1'', CHR 0x5C # ''u@wizard:'' @ CHR 0x5C # ''w'' @ CHR 0x5C # ''$ '')],
         aliases = [(''ll'', ''ls -la''), (''la'', ''ls -a''), (''cls'', ''clear''), (''c'', ''clear'')]\<rparr>,
      system = \<lparr>integrity = 100, integrityDeltas = [], username = None, total_commands = None\<rparr>,
      uuidCalls = 0\<rparr>"

definition demo_terminal :: TerminalState where
  \<comment> \<open>a session with one command in its history, no cursor, and a draft being typed\<close>
  "demo_terminal =
     \<lparr>history = [], commandHistory = [''ls''], historyIndex = - 1, currentInput = ''draft'',
      workingDirectory = ''/home/user'', environment = [], aliases = []\<rparr>"

definition demo_toISO :: "nat \<Rightarrow> string" where
  \<comment> \<open>stands in for \<^verbatim>\<open>toISOString\<close> at the two times the examples use\<close>
  "demo_toISO t = (if t = 0 then ''1970-01-01T00:00:00.000Z'' else ''1970-01-01T00:00:00.001Z'')"

definition demo_texts :: "(string \<times> json) list" where
  \<comment> \<open>a text layer that knows three texts; the third stands for the text of the snapshot of
      \<open>seed_part\<close>\<close>
  "demo_texts =
     [(''null'', JNull), (''42'', JNum 42), (''SNAPSHOT'', encodeFileSystem demo_toISO seed_part)]"

definition demo_parse :: "string \<Rightarrow> json option" where
  "demo_parse s = map_of demo_texts s"

definition demo_stringify :: "json \<Rightarrow> string" where
  "demo_stringify j = (case find (\<lambda>(t, v). v = j) demo_texts of None \<Rightarrow> [] | Some (t, v) \<Rightarrow> t)"

definition roundTrip :: "(nat \<Rightarrow> string) \<Rightarrow> FileSystem \<Rightarrow> FileSystem" where
  \<comment> \<open>a filesystem after a trip through JSON\<close>
  "roundTrip toISO fs = fs\<lparr>nodes := map (\<lambda>(k, n). (k, jsonDates toISO n)) (nodes fs)\<rparr>"

definition normal_segment :: "string \<Rightarrow> bool" where
  \<comment> \<open>a path segment that is not empty, holds no slash and is neither \<^verbatim>\<open>.\<close> nor \<^verbatim>\<open>..\<close>\<close>
  "normal_segment s = (s \<noteq> [] \<and> CHR ''/'' \<notin> set s \<and> s \<noteq> ''.'' \<and> s \<noteq> ''..'')"

definition normalized :: "string \<Rightarrow> bool" where
  \<comment> \<open>an absolute path of normal segments: it starts with a slash and, unless it is
      \<^verbatim>\<open>/\<close>, does not end with one\<close>
  "normalized r =
     (r = ''/'' \<or>
      (startsWith r ''/'' \<and> list_all normal_segment (js_split CHR ''/'' (drop 1 r))))"

definition directories :: "FileSystem \<Rightarrow> string set" where
  \<comment> \<open>the identifiers at which a subtree walk goes on into children\<close>
  "directories fs =
     {i. \<exists>n cs. getNodeById fs i = Some n \<and> children n = Some cs \<and> typeF n = Directory}"

definition exact_depth :: "FileSystem \<Rightarrow> nat \<Rightarrow> string set" where
  \<comment> \<open>the identifiers whose walk needs the depth \<open>Suc d\<close> and no less\<close>
  "exact_depth fs d = {i. collectDescendants (Suc d) fs i \<noteq> None \<and> collectDescendants d fs i = None}"

definition shape_of :: "FileSystem \<Rightarrow> string \<Rightarrow> (node_type \<times> string list option) option" where
  \<comment> \<open>what a subtree walk looks at in a node\<close>
  "shape_of fs i = map_option (\<lambda>n. (typeF n, children n)) (getNodeById fs i)"

section \<open>Properties\<close>

subsection \<open>The subtree walks\<close>

text \<open>
  The depth bound of the walks takes nothing away: a walk that ends within any depth ends
  within one more than the number of stored nodes, with the same result. So \<open>None\<close>
  from \<^const>\<open>deleteNode\<close> or \<^const>\<open>renameNode\<close> is a walk that no depth lets end. A walk
  that ends needs, for every depth \<open>k\<close> from 1 up to its own, a directory whose walk
  needs exactly \<open>k\<close>; these directories are distinct keys of the node table.
\<close>

lemma those_map_None: "those (map f xs) = None \<longleftrightarrow> (\<exists>x\<in>set xs. f x = None)"
  by (induction xs) (auto split: option.splits)

lemma collect_Suc:
  "collectDescendants (Suc d) fs i =
     (case getNodeById fs i of
        None \<Rightarrow> Some [i]
      | Some n \<Rightarrow>
          (case children n of
             None \<Rightarrow> Some [i]
           | Some cs \<Rightarrow>
               if typeF n = Directory
               then map_option (\<lambda>ds. i # concat ds) (those (map (collectDescendants d fs) cs))
               else Some [i]))"
  by simp

lemma collect_not_directory:
  "i \<notin> directories fs \<Longrightarrow> collectDescendants (Suc d) fs i = Some [i]"
  by (auto simp: directories_def split: option.splits)

lemma collect_step:
  "collectDescendants d fs i \<noteq> None \<Longrightarrow> collectDescendants (Suc d) fs i = collectDescendants d fs i"
proof (induction d arbitrary: i)
  case 0
  then show ?case by simp
next
  case (Suc d)
  show ?case
  proof (cases "i \<in> directories fs")
    case False
    then have "collectDescendants (Suc (Suc d)) fs i = Some [i]"
      and "collectDescendants (Suc d) fs i = Some [i]"
      by (rule collect_not_directory)+
    then show ?thesis by simp
  next
    case True
    then obtain n cs where n: "getNodeById fs i = Some n" "children n = Some cs" "typeF n = Directory"
      by (auto simp: directories_def)
    from Suc.prems n have "those (map (collectDescendants d fs) cs) \<noteq> None"
      by (auto simp: collect_Suc)
    then have "\<forall>c\<in>set cs. collectDescendants d fs c \<noteq> None"
      by (simp add: those_map_None)
    with Suc.IH have "map (collectDescendants (Suc d) fs) cs = map (collectDescendants d fs) cs"
      by (intro map_cong) auto
    with n show ?thesis
      by (simp only: collect_Suc [of "Suc d"] collect_Suc [of d] option.case if_True)
  qed
qed

lemma collect_mono:
  "collectDescendants d fs i \<noteq> None \<Longrightarrow> d \<le> d'
   \<Longrightarrow> collectDescendants d' fs i = collectDescendants d fs i"
proof (induction d' )
  case 0
  then show ?case by simp
next
  case (Suc d')
  show ?case
  proof (cases "d = Suc d'")
    case True
    then show ?thesis by simp
  next
    case False
    with Suc.prems have le: "d \<le> d'" by simp
    with Suc have eq: "collectDescendants d' fs i = collectDescendants d fs i" by simp
    with Suc.prems(1) have "collectDescendants d' fs i \<noteq> None" by simp
    then show ?thesis using collect_step eq by simp
  qed
qed

lemma exact_depth_Suc:
  assumes "i \<in> exact_depth fs (Suc d)"
  shows "i \<in> directories fs \<and> exact_depth fs d \<noteq> {}"
proof -
  from assms have a: "collectDescendants (Suc (Suc d)) fs i \<noteq> None"
    and b: "collectDescendants (Suc d) fs i = None"
    by (simp_all add: exact_depth_def)
  from b have dir: "i \<in> directories fs"
    using collect_not_directory by fastforce
  then obtain n cs where n: "getNodeById fs i = Some n" "children n = Some cs" "typeF n = Directory"
    by (auto simp: directories_def)
  from b n obtain c where c: "c \<in> set cs" "collectDescendants d fs c = None"
    by (auto simp: collect_Suc [of d] those_map_None)
  from a n have "\<forall>c\<in>set cs. collectDescendants (Suc d) fs c \<noteq> None"
    by (simp only: collect_Suc [of "Suc d"] option.case if_True) (auto simp: those_map_None)
  with c have "c \<in> exact_depth fs d" by (simp add: exact_depth_def)
  with dir show ?thesis by blast
qed

lemma exact_depth_chain:
  "exact_depth fs d \<noteq> {} \<Longrightarrow> 1 \<le> k \<Longrightarrow> k \<le> d \<Longrightarrow> \<exists>j\<in>directories fs. j \<in> exact_depth fs k"
proof (induction d)
  case 0
  then show ?case by simp
next
  case (Suc d)
  from Suc.prems(1) obtain i where i: "i \<in> exact_depth fs (Suc d)" by blast
  from exact_depth_Suc [OF i] have dir: "i \<in> directories fs" and ne: "exact_depth fs d \<noteq> {}"
    by simp_all
  show ?case
  proof (cases "k = Suc d")
    case True
    with i dir show ?thesis by blast
  next
    case False
    with Suc.prems have "k \<le> d" by simp
    with Suc.IH ne Suc.prems(2) show ?thesis by simp
  qed
qed

lemma exact_depth_disjoint:
  assumes "i \<in> exact_depth fs k" and "i \<in> exact_depth fs k'"
  shows "k = k'"
proof -
  have aux: False if "i \<in> exact_depth fs a" "i \<in> exact_depth fs b" "a < b" for a b
  proof -
    from that have "collectDescendants (Suc a) fs i \<noteq> None" "collectDescendants b fs i = None" "Suc a \<le> b"
      by (simp_all add: exact_depth_def)
    then show False using collect_mono by metis
  qed
  show ?thesis using aux assms by (metis linorder_neqE_nat)
qed

lemma finite_directories: "finite (directories fs)"
proof -
  have "directories fs \<subseteq> fst ` set (nodes fs)"
    by (auto simp: directories_def getNodeById_def dest!: map_of_SomeD intro: rev_image_eqI)
  then show ?thesis by (rule finite_subset) simp
qed

lemma card_directories: "card (directories fs) \<le> length (nodes fs)"
proof -
  have "directories fs \<subseteq> fst ` set (nodes fs)"
    by (auto simp: directories_def getNodeById_def dest!: map_of_SomeD intro: rev_image_eqI)
  then have "card (directories fs) \<le> card (fst ` set (nodes fs))"
    by (intro card_mono) simp_all
  also have "\<dots> \<le> card (set (nodes fs))" by (rule card_image_le) simp
  also have "\<dots> \<le> length (nodes fs)" by (rule card_length)
  finally show ?thesis .
qed

lemma exact_depth_bound:
  assumes "exact_depth fs d \<noteq> {}"
  shows "d \<le> length (nodes fs)"
proof -
  have "\<forall>k\<in>{1..d}. \<exists>j. j \<in> directories fs \<and> j \<in> exact_depth fs k"
  proof
    fix k
    assume "k \<in> {1..d}"
    then have "1 \<le> k" "k \<le> d" by simp_all
    from exact_depth_chain [OF assms this] show "\<exists>j. j \<in> directories fs \<and> j \<in> exact_depth fs k"
      by blast
  qed
  then obtain f where f: "\<forall>k\<in>{1..d}. f k \<in> directories fs \<and> f k \<in> exact_depth fs k"
    by metis
  have "inj_on f {1..d}"
    using f exact_depth_disjoint by (intro inj_onI) metis
  moreover have "f ` {1..d} \<subseteq> directories fs" using f by auto
  ultimately have "card {1..d} \<le> card (directories fs)"
    using finite_directories card_inj_on_le by blast
  with card_directories [of fs] show ?thesis by simp
qed

lemma collectDescendants_depth_suffices:
  assumes "collectDescendants d fs i = Some ds"
  shows "collectDescendants (Suc (length (nodes fs))) fs i = Some ds"
proof -
  define m where "m = (LEAST k. collectDescendants k fs i \<noteq> None)"
  have ex: "collectDescendants d fs i \<noteq> None" using assms by simp
  then have m: "collectDescendants m fs i \<noteq> None" unfolding m_def by (rule LeastI)
  have md: "m \<le> d" unfolding m_def using ex by (rule Least_le)
  from m obtain m' where m': "m = Suc m'" by (cases m) auto
  have "collectDescendants m' fs i = None"
  proof (rule ccontr)
    assume "collectDescendants m' fs i \<noteq> None"
    then have "m \<le> m'" unfolding m_def by (rule Least_le)
    with m' show False by simp
  qed
  with m m' have "i \<in> exact_depth fs m'" by (simp add: exact_depth_def)
  then have "m' \<le> length (nodes fs)" using exact_depth_bound by blast
  with m' have "m \<le> Suc (length (nodes fs))" by simp
  with m have "collectDescendants (Suc (length (nodes fs))) fs i = collectDescendants m fs i"
    by (rule collect_mono)
  moreover from m md have "collectDescendants d fs i = collectDescendants m fs i"
    by (rule collect_mono)
  ultimately show ?thesis using assms by simp
qed

text \<open>
  \<^const>\<open>updatePaths\<close> changes paths, names and dates only, so it ends on the same
  identifiers as \<^const>\<open>collectDescendants\<close> does.
\<close>

lemma forEach_opt_invariant:
  assumes "forEach_opt f xs s = Some s'"
    and "\<And>x a b. x \<in> set xs \<Longrightarrow> P a \<Longrightarrow> f x a = Some b \<Longrightarrow> P b"
    and "P s"
  shows "P s'"
  using assms
proof (induction xs arbitrary: s)
  case Nil
  then show ?case by simp
next
  case (Cons a xs)
  from Cons.prems(1) obtain s1 where s1: "f a s = Some s1" "forEach_opt f xs s1 = Some s'"
    by (auto split: option.splits)
  have p1: "P s1" using Cons.prems(2) [of a s s1] Cons.prems(3) s1 by simp
  have step: "\<And>x a b. x \<in> set xs \<Longrightarrow> P a \<Longrightarrow> f x a = Some b \<Longrightarrow> P b"
    using Cons.prems(2) by (meson list.set_intros(2))
  from Cons.IH [OF s1(2) step p1] show ?case .
qed

lemma updatePaths_Suc:
  "updatePaths (Suc d) now rid newName i old new fs =
     (case getNodeById fs i of
        None \<Rightarrow> Some fs
      | Some n \<Rightarrow>
          (case children n of
             None \<Rightarrow> Some (fs\<lparr>nodes := AList.update i (n\<lparr>path := js_replace (path n) old new,
                              name := (if i = rid then newName else name n),
                              modified := DateObj now\<rparr>) (nodes fs)\<rparr>)
           | Some cs \<Rightarrow>
               if typeF n = Directory
               then forEach_opt (\<lambda>childId s. updatePaths d now rid newName childId old new s) cs
                      (fs\<lparr>nodes := AList.update i (n\<lparr>path := js_replace (path n) old new,
                              name := (if i = rid then newName else name n),
                              modified := DateObj now\<rparr>) (nodes fs)\<rparr>)
               else Some (fs\<lparr>nodes := AList.update i (n\<lparr>path := js_replace (path n) old new,
                              name := (if i = rid then newName else name n),
                              modified := DateObj now\<rparr>) (nodes fs)\<rparr>)))"
  by (simp add: Let_def split: option.splits)

lemma proj_update:
  assumes "getNodeById fs i = Some n" and "g i n' = g i n"
  shows "map_option (g j) (getNodeById (fs\<lparr>nodes := AList.update i n' (nodes fs)\<rparr>) j)
         = map_option (g j) (getNodeById fs j)"
  using assms by (simp add: getNodeById_def update_conv')

lemma keys_update:
  assumes "getNodeById fs i = Some n"
  shows "map fst (nodes (fs\<lparr>nodes := AList.update i n' (nodes fs)\<rparr>)) = map fst (nodes fs)"
proof -
  from assms have "i \<in> fst ` set (nodes fs)"
    by (auto simp: getNodeById_def dest!: map_of_SomeD intro: rev_image_eqI)
  then show ?thesis by (simp add: update_keys)
qed

lemma updatePaths_preserves:
  assumes g: "\<And>k n p m. g k (n\<lparr>path := p, name := (if k = rid then newName else name n),
                                modified := m\<rparr>) = g k n"
  shows "updatePaths d now rid newName i old new fs = Some fs'
         \<Longrightarrow> map fst (nodes fs') = map fst (nodes fs) \<and>
             (\<forall>j. map_option (g j) (getNodeById fs' j) = map_option (g j) (getNodeById fs j))"
proof (induction d arbitrary: i fs fs')
  case 0
  then show ?case by simp
next
  case (Suc d)
  let ?P = "\<lambda>s. map fst (nodes s) = map fst (nodes fs) \<and>
             (\<forall>j. map_option (g j) (getNodeById s j) = map_option (g j) (getNodeById fs j))"
  show ?case
  proof (cases "getNodeById fs i")
    case None
    with Suc.prems show ?thesis by (simp add: updatePaths_Suc del: updatePaths.simps)
  next
    case (Some n)
    let ?n1 = "n\<lparr>path := js_replace (path n) old new,
                 name := (if i = rid then newName else name n), modified := DateObj now\<rparr>"
    let ?fs1 = "fs\<lparr>nodes := AList.update i ?n1 (nodes fs)\<rparr>"
    have p1: "?P ?fs1"
      using keys_update [OF Some] proj_update [OF Some, of g ?n1] g by simp
    show ?thesis
    proof (cases "\<exists>cs. children n = Some cs \<and> typeF n = Directory")
      case False
      with Some Suc.prems have "fs' = ?fs1"
        by (auto simp: updatePaths_Suc simp del: updatePaths.simps split: option.splits if_splits)
      with p1 show ?thesis by simp
    next
      case True
      then obtain cs where cs: "children n = Some cs" "typeF n = Directory" by blast
      with Some Suc.prems
      have fe: "forEach_opt (\<lambda>childId s. updatePaths d now rid newName childId old new s) cs ?fs1
                  = Some fs'"
        by (simp add: updatePaths_Suc del: updatePaths.simps)
      show ?thesis
      proof (rule forEach_opt_invariant [OF fe, where P = ?P])
        show "?P ?fs1" by (rule p1)
      next
        fix x a b
        assume "?P a" and "updatePaths d now rid newName x old new a = Some b"
        with Suc.IH [of x a b] show "?P b" by simp
      qed
    qed
  qed
qed

lemma updatePaths_shape:
  assumes "updatePaths d now rid newName i old new fs = Some fs'"
  shows "shape_of fs' j = shape_of fs j"
  using updatePaths_preserves [where g = "\<lambda>k n. (typeF n, children n)", OF _ assms]
  by (simp add: shape_of_def)

lemma collect_shape:
  "(\<And>j. shape_of fs j = shape_of fs' j)
   \<Longrightarrow> collectDescendants d fs i = collectDescendants d fs' i"
proof (induction d arbitrary: i)
  case 0
  then show ?case by simp
next
  case (Suc d)
  have ih: "collectDescendants d fs = collectDescendants d fs'"
    using Suc by blast
  have "shape_of fs i = shape_of fs' i" using Suc.prems by blast
  then show ?case
    unfolding collect_Suc ih
    by (cases "getNodeById fs i"; cases "getNodeById fs' i")
       (auto simp: shape_of_def split: option.splits)
qed

lemma forEach_opt_None_shape:
  assumes "\<And>c s. c \<in> set cs \<Longrightarrow> P s \<Longrightarrow> (f c s = None \<longleftrightarrow> g c = None)"
    and "\<And>c s s'. c \<in> set cs \<Longrightarrow> P s \<Longrightarrow> f c s = Some s' \<Longrightarrow> P s'"
    and "P s0"
  shows "forEach_opt f cs s0 = None \<longleftrightarrow> (\<exists>c\<in>set cs. g c = None)"
  using assms
proof (induction cs arbitrary: s0)
  case Nil
  then show ?case by simp
next
  case (Cons c cs)
  have h1: "\<And>c s. c \<in> set cs \<Longrightarrow> P s \<Longrightarrow> (f c s = None \<longleftrightarrow> g c = None)"
    using Cons.prems(1) by (meson list.set_intros(2))
  have h2: "\<And>c s s'. c \<in> set cs \<Longrightarrow> P s \<Longrightarrow> f c s = Some s' \<Longrightarrow> P s'"
    using Cons.prems(2) by (meson list.set_intros(2))
  show ?case
  proof (cases "f c s0")
    case None
    then have "g c = None" using Cons.prems(1) [of c s0] Cons.prems(3) by simp
    with None show ?thesis by simp
  next
    case (Some s1)
    then have g: "g c \<noteq> None" using Cons.prems(1) [of c s0] Cons.prems(3) by simp
    have "P s1" using Cons.prems(2) [of c s0 s1] Cons.prems(3) Some by simp
    from Cons.IH [OF h1 h2 this]
    have "forEach_opt f cs s1 = None \<longleftrightarrow> (\<exists>c\<in>set cs. g c = None)" .
    with Some g show ?thesis by auto
  qed
qed

lemma updatePaths_None_iff:
  "updatePaths d now rid newName i old new fs = None \<longleftrightarrow> collectDescendants d fs i = None"
proof (induction d arbitrary: i fs)
  case 0
  then show ?case by simp
next
  case (Suc d)
  show ?case
  proof (cases "getNodeById fs i")
    case None
    then show ?thesis by (simp add: updatePaths_Suc collect_Suc)
  next
    case (Some n)
    let ?fs1 = "fs\<lparr>nodes := AList.update i (n\<lparr>path := js_replace (path n) old new,
                              name := (if i = rid then newName else name n),
                              modified := DateObj now\<rparr>) (nodes fs)\<rparr>"
    have s1: "\<And>j. shape_of ?fs1 j = shape_of fs j"
      using proj_update [OF Some, where g = "\<lambda>k n. (typeF n, children n)"]
      by (simp add: shape_of_def)
    show ?thesis
    proof (cases "children n")
      case None
      with Some show ?thesis by (simp add: updatePaths_Suc collect_Suc)
    next
      case cs: (Some cs)
      show ?thesis
      proof (cases "typeF n = Directory")
        case False
        with cs Some show ?thesis by (simp add: updatePaths_Suc collect_Suc)
      next
        case True
        let ?P = "\<lambda>s. \<forall>j. shape_of s j = shape_of fs j"
        have a: "\<And>c s. c \<in> set cs \<Longrightarrow> ?P s \<Longrightarrow>
                   (updatePaths d now rid newName c old new s = None
                    \<longleftrightarrow> collectDescendants d fs c = None)"
        proof -
          fix c s
          assume "?P s"
          then have "collectDescendants d s c = collectDescendants d fs c"
            by (intro collect_shape) simp
          then show "updatePaths d now rid newName c old new s = None
                    \<longleftrightarrow> collectDescendants d fs c = None"
            using Suc.IH [of c s] by simp
        qed
        have b: "\<And>c s s'. c \<in> set cs \<Longrightarrow> ?P s \<Longrightarrow>
                   updatePaths d now rid newName c old new s = Some s' \<Longrightarrow> ?P s'"
          using updatePaths_shape by metis
        have "forEach_opt (\<lambda>childId s. updatePaths d now rid newName childId old new s) cs ?fs1 = None
              \<longleftrightarrow> (\<exists>c\<in>set cs. collectDescendants d fs c = None)"
          by (rule forEach_opt_None_shape [where P = ?P, OF a b]) (use s1 in auto)
        with True cs Some show ?thesis
          by (simp add: updatePaths_Suc collect_Suc those_map_None)
      qed
    qed
  qed
qed

lemma forEach_opt_mono:
  assumes "forEach_opt f xs s = Some r"
    and "\<And>x a b. f x a = Some b \<Longrightarrow> g x a = Some b"
  shows "forEach_opt g xs s = Some r"
  using assms by (induction xs arbitrary: s) (auto split: option.splits)

lemma updatePaths_step:
  "updatePaths d now rid newName i old new fs = Some r
   \<Longrightarrow> updatePaths (Suc d) now rid newName i old new fs = Some r"
proof (induction d arbitrary: i fs r)
  case 0
  then show ?case by simp
next
  case (Suc d)
  show ?case
  proof (cases "\<exists>n cs. getNodeById fs i = Some n \<and> children n = Some cs \<and> typeF n = Directory")
    case False
    with Suc.prems show ?thesis
      unfolding updatePaths_Suc [of "Suc d"] updatePaths_Suc [of d]
      by (auto split: option.splits)
  next
    case True
    then obtain n cs where n: "getNodeById fs i = Some n" "children n = Some cs" "typeF n = Directory"
      by blast
    let ?fs1 = "fs\<lparr>nodes := AList.update i (n\<lparr>path := js_replace (path n) old new,
                              name := (if i = rid then newName else name n),
                              modified := DateObj now\<rparr>) (nodes fs)\<rparr>"
    from Suc.prems n
    have "forEach_opt (\<lambda>childId s. updatePaths d now rid newName childId old new s) cs ?fs1 = Some r"
      by (simp add: updatePaths_Suc [of d])
    then have "forEach_opt (\<lambda>childId s. updatePaths (Suc d) now rid newName childId old new s) cs ?fs1 = Some r"
      by (rule forEach_opt_mono) (rule Suc.IH)
    with n show ?thesis
      by (simp add: updatePaths_Suc [of "Suc d"] del: updatePaths.simps)
  qed
qed

lemma updatePaths_mono:
  "updatePaths d now rid newName i old new fs = Some r \<Longrightarrow> d \<le> d'
   \<Longrightarrow> updatePaths d' now rid newName i old new fs = Some r"
proof (induction d')
  case 0
  then show ?case by simp
next
  case (Suc d')
  show ?case
  proof (cases "d = Suc d'")
    case True
    with Suc.prems(1) show ?thesis by blast
  next
    case False
    with Suc.prems(2) have "d \<le> d'" by simp
    with Suc.IH Suc.prems(1) have "updatePaths d' now rid newName i old new fs = Some r" by blast
    then show ?thesis by (rule updatePaths_step)
  qed
qed

lemma updatePaths_depth_suffices:
  assumes "updatePaths d now rid newName i old new fs = Some r"
  shows "updatePaths (Suc (length (nodes fs))) now rid newName i old new fs = Some r"
proof -
  from assms have "collectDescendants d fs i \<noteq> None"
    using updatePaths_None_iff [of d now rid newName i old new fs] by simp
  then obtain ds where "collectDescendants d fs i = Some ds" by blast
  then have "collectDescendants (Suc (length (nodes fs))) fs i \<noteq> None"
    using collectDescendants_depth_suffices by fastforce
  then obtain r' where r': "updatePaths (Suc (length (nodes fs))) now rid newName i old new fs = Some r'"
    using updatePaths_None_iff [of "Suc (length (nodes fs))" now rid newName i old new fs] by auto
  let ?m = "max d (Suc (length (nodes fs)))"
  have "updatePaths ?m now rid newName i old new fs = Some r"
    using assms by (rule updatePaths_mono) simp
  moreover have "updatePaths ?m now rid newName i old new fs = Some r'"
    using r' by (rule updatePaths_mono) simp
  ultimately show ?thesis using r' by simp
qed

subsection \<open>Cached paths after a move\<close>

text \<open>
  C1. After every mutating operation every node's cached path should be its parent's
  path joined with its name, also for the descendants of a moved node. \<^verbatim>\<open>moveNode\<close>
  rewrites the path of the moved node only: moving \<^verbatim>\<open>/data/logs\<close> into \<^verbatim>\<open>/home\<close> succeeds,
  the directory gets the path \<^verbatim>\<open>/home/logs\<close>, and the file in it keeps the path
  \<^verbatim>\<open>/data/logs/system.log\<close>, so the invariant that held before no longer holds.
\<close>

theorem moveNode_leaves_descendant_path_stale:
  "path_invariant seed_part \<and>
   fst (moveNode 1 ''/data/logs'' ''/home'' seed_part) \<and>
   (let fs' = snd (moveNode 1 ''/data/logs'' ''/home'' seed_part) in
      map_option path (getNodeById fs' ''id-logs'') = Some ''/home/logs'' \<and>
      map_option parent (getNodeById fs' ''id-syslog'') = Some (Some ''id-logs'') \<and>
      map_option name (getNodeById fs' ''id-syslog'') = Some ''system.log'' \<and>
      map_option path (getNodeById fs' ''id-syslog'') = Some ''/data/logs/system.log'' \<and>
      \<not> path_invariant fs')"
  by code_simp

subsection \<open>Path resolution\<close>

text \<open>
  The absolute and the relative branch of \<^verbatim>\<open>resolvePath\<close>, and the branch for \<^verbatim>\<open>~\<close>,
  return a normalized path, and resolving it again returns it unchanged.
\<close>

lemma js_split_nonempty: "js_split sep s \<noteq> []"
  by (cases s) (auto split: list.splits)

lemma js_split_no_sep: "x \<in> set (js_split sep s) \<Longrightarrow> sep \<notin> set x"
proof (induction s arbitrary: x)
  case Nil
  then show ?case by simp
next
  case (Cons c cs)
  then show ?case
    by (cases "js_split sep cs") (auto split: if_splits)
qed

lemma js_split_no_sep_id: "sep \<notin> set x \<Longrightarrow> js_split sep x = [x]"
  by (induction x) auto

lemma js_split_append:
  "sep \<notin> set x \<Longrightarrow> js_split sep (x @ sep # rest) = x # js_split sep rest"
  by (induction x) (auto simp: js_split_nonempty split: list.splits)

lemma js_split_join:
  "segs \<noteq> [] \<Longrightarrow> \<forall>x\<in>set segs. sep \<notin> set x \<Longrightarrow> js_split sep (js_join [sep] segs) = segs"
proof (induction segs)
  case Nil
  then show ?case by simp
next
  case (Cons x xs)
  show ?case
  proof (cases xs)
    case Nil
    with Cons.prems show ?thesis by (simp add: js_split_no_sep_id)
  next
    case (Cons y ys)
    with Cons.IH Cons.prems have "js_split sep (js_join [sep] xs) = xs" by simp
    with Cons Cons.prems show ?thesis by (simp add: js_split_append)
  qed
qed

lemma normalize_parts_normal:
  "list_all normal_segment acc \<Longrightarrow> \<forall>x\<in>set parts. x \<noteq> [] \<and> CHR ''/'' \<notin> set x
   \<Longrightarrow> list_all normal_segment (normalize_parts acc parts)"
proof (induction parts arbitrary: acc)
  case Nil
  then show ?case by simp
next
  case (Cons part parts)
  have rest: "\<forall>x\<in>set parts. x \<noteq> [] \<and> CHR ''/'' \<notin> set x"
    using Cons.prems(2) by simp
  consider "part = ''..''" | "part = ''.''" | "part \<noteq> ''..''" "part \<noteq> ''.''" by blast
  then show ?case
  proof cases
    case 1
    have "list_all normal_segment (butlast acc)"
      using Cons.prems(1) by (auto simp: list_all_iff dest: in_set_butlastD)
    with 1 show ?thesis using Cons.IH [OF _ rest] by simp
  next
    case 2
    then show ?thesis using Cons.IH [OF Cons.prems(1) rest] by simp
  next
    case 3
    have "normal_segment part"
      using 3 Cons.prems(2) by (simp add: normal_segment_def)
    then have "list_all normal_segment (acc @ [part])"
      using Cons.prems(1) by simp
    with 3 show ?thesis using Cons.IH [OF _ rest] by simp
  qed
qed

lemma normalize_parts_id:
  "list_all normal_segment parts \<Longrightarrow> normalize_parts acc parts = acc @ parts"
  by (induction parts arbitrary: acc) (auto simp: normal_segment_def)

lemma parts_ok: "\<forall>x\<in>set (filterBoolean (js_split CHR ''/'' s)). x \<noteq> [] \<and> CHR ''/'' \<notin> set x"
  by (auto simp: filterBoolean_def dest: js_split_no_sep)

lemma normalized_root_join:
  assumes "list_all normal_segment segs"
  shows "normalized (''/'' @ js_join ''/'' segs)"
proof (cases "segs = []")
  case True
  then show ?thesis by (simp add: normalized_def)
next
  case False
  have "\<forall>x\<in>set segs. CHR ''/'' \<notin> set x"
    using assms by (auto simp: list_all_iff normal_segment_def)
  with False have "js_split CHR ''/'' (js_join ''/'' segs) = segs"
    using js_split_join [of segs "CHR ''/''"] by simp
  with assms show ?thesis
    by (simp add: normalized_def startsWith_def)
qed

lemma resolve_root_join:
  assumes "list_all normal_segment segs"
  shows "resolvePath fs (''/'' @ js_join ''/'' segs) = ''/'' @ js_join ''/'' segs"
proof -
  let ?r = "''/'' @ js_join ''/'' segs"
  have nf: "\<forall>x\<in>set segs. CHR ''/'' \<notin> set x" and ne: "\<forall>x\<in>set segs. x \<noteq> []"
    using assms by (auto simp: list_all_iff normal_segment_def)
  have split: "filterBoolean (js_split CHR ''/'' ?r) = segs"
  proof (cases "segs = []")
    case True
    then show ?thesis by (simp add: filterBoolean_def)
  next
    case False
    with nf have "js_split CHR ''/'' (js_join ''/'' segs) = segs"
      using js_split_join [of segs "CHR ''/''"] by simp
    then have "js_split CHR ''/'' ?r = [] # segs" by simp
    with ne show ?thesis by (simp add: filterBoolean_def filter_id_conv)
  qed
  have "?r \<noteq> []" "?r \<noteq> ''.''" "?r \<noteq> ''~''" "\<not> startsWith ?r ''~/''" "startsWith ?r ''/''"
    by (simp_all add: startsWith_def)
  then have "resolvePath fs ?r = ''/'' @ js_join ''/'' (normalize_parts [] (filterBoolean (js_split CHR ''/'' ?r)))"
    unfolding resolvePath_def by (simp only: if_False if_True simp_thms)
  with split assms show ?thesis
    by (simp add: normalize_parts_id)
qed

lemma resolvePath_normalizing_branches:
  assumes "p \<noteq> []" and "p \<noteq> ''.''" and "\<not> startsWith p ''~/''"
  shows "normalized (resolvePath fs p) \<and> resolvePath fs (resolvePath fs p) = resolvePath fs p"
proof -
  obtain segs where segs: "list_all normal_segment segs" "resolvePath fs p = ''/'' @ js_join ''/'' segs"
  proof (cases "p = ''~''")
    case True
    have "list_all normal_segment [''home'', ''user'']" by (simp add: normal_segment_def)
    moreover have "resolvePath fs p = ''/'' @ js_join ''/'' [''home'', ''user'']"
      using True by (simp add: resolvePath_def)
    ultimately show ?thesis using that by blast
  next
    case False
    show ?thesis
    proof (cases "startsWith p ''/''")
      case True
      let ?segs = "normalize_parts [] (filterBoolean (js_split CHR ''/'' p))"
      have "list_all normal_segment ?segs"
        using normalize_parts_normal [of "[]"] parts_ok by simp
      moreover have "resolvePath fs p = ''/'' @ js_join ''/'' ?segs"
        using assms False True by (simp add: resolvePath_def)
      ultimately show ?thesis using that by blast
    next
      case nabs: False
      let ?segs = "normalize_parts [] (filterBoolean (js_split CHR ''/'' (currentDirPath fs @ ''/'' @ p)))"
      have "list_all normal_segment ?segs"
        using normalize_parts_normal [of "[]"] parts_ok by simp
      moreover have "resolvePath fs p = ''/'' @ js_join ''/'' ?segs"
        using assms False nabs by (simp add: resolvePath_def)
      ultimately show ?thesis using that by blast
    qed
  qed
  show ?thesis
    using segs normalized_root_join [of segs] resolve_root_join [of segs fs] by simp
qed

text \<open>
  C2. \<^verbatim>\<open>resolvePath\<close> should return a normalized absolute path for every input and be
  idempotent. The branch for \<^verbatim>\<open>~/rest\<close> returns \<^verbatim>\<open>/home/user\<close> followed by the rest as it
  is, without the normalization of the absolute and the relative branch: \<^verbatim>\<open>~/..\<close>
  resolves to \<^verbatim>\<open>/home/user/..\<close>, which has a \<^verbatim>\<open>..\<close> segment and resolves once more to
  \<^verbatim>\<open>/home\<close>; \<^verbatim>\<open>~/\<close> resolves to a path that ends in a slash.
\<close>

theorem resolvePath_home_relative_not_normalized:
  "resolvePath seed_part ''~/..'' = ''/home/user/..'' \<and>
   ''..'' \<in> set (js_split CHR ''/'' (resolvePath seed_part ''~/..'')) \<and>
   resolvePath seed_part (resolvePath seed_part ''~/..'') = ''/home'' \<and>
   resolvePath seed_part ''~/'' = ''/home/user/''"
  by code_simp

subsection \<open>The scripted catastrophic command\<close>

text \<open>
  C3. The input \<^verbatim>\<open>rm -rf /\<close> should be recognized as a whole, report the delta -100 and
  leave the filesystem alone. The interpreter looks the first token up, so the input
  runs the handler of \<^verbatim>\<open>rm\<close> with the arguments \<^verbatim>\<open>-rf\<close> and \<^verbatim>\<open>/\<close>; the table entry under
  the key \<^verbatim>\<open>rm -rf /\<close> is never called. The filesystem stays as it is (the root cannot be
  deleted), but no delta is reported and the integrity stays 100.
\<close>

theorem rm_rf_root_reports_nothing:
  "(case executeCommand demo_host ''rm -rf /'' demo_world of
      Inl e \<Rightarrow> False
    | Inr (command, w') \<Rightarrow>
        outputC command = [] \<and> exitCodeC command = 0 \<and>
        integrityDeltas (system w') = [] \<and> integrity (system w') = 100 \<and>
        filesystem w' = seed_part)"
  by code_simp

subsection \<open>Failed operations\<close>

text \<open>
  C4. An operation of the filesystem store that reports failure (\<^verbatim>\<open>false\<close> or \<^verbatim>\<open>null\<close>)
  leaves the stored filesystem exactly as it was; so does an import whose text does not
  parse.
\<close>

theorem failed_operation_leaves_tree:
  "(createFile newId now nm parentPath c fs = (None, fs') \<longrightarrow> fs' = fs) \<and>
   (createDirectory newId now nm parentPath fs = (None, fs') \<longrightarrow> fs' = fs) \<and>
   (deleteNode p fs = Some (False, fs') \<longrightarrow> fs' = fs) \<and>
   (renameNode now p newName fs = Some (False, fs') \<longrightarrow> fs' = fs) \<and>
   (moveNode now sourcePath destPath fs = (False, fs') \<longrightarrow> fs' = fs) \<and>
   (updateFileContent now p newContent fs = (False, fs') \<longrightarrow> fs' = fs) \<and>
   (setCurrentDirectory p fs = (False, fs') \<longrightarrow> fs' = fs) \<and>
   (importFilesystem parse data st = (False, st') \<longrightarrow> st' = st)"
proof (intro conjI impI)
  assume "createFile newId now nm parentPath c fs = (None, fs')"
  then show "fs' = fs"
    by (auto simp: createFile_def Let_def split: option.splits if_splits)
next
  assume "createDirectory newId now nm parentPath fs = (None, fs')"
  then show "fs' = fs"
    by (auto simp: createDirectory_def Let_def split: option.splits if_splits)
next
  assume "deleteNode p fs = Some (False, fs')"
  then show "fs' = fs"
    by (auto simp: deleteNode_def Let_def split: option.splits if_splits)
next
  assume "renameNode now p newName fs = Some (False, fs')"
  then show "fs' = fs"
    by (auto simp: renameNode_def Let_def split: option.splits if_splits)
next
  assume "moveNode now sourcePath destPath fs = (False, fs')"
  then show "fs' = fs"
    by (auto simp: moveNode_def Let_def split: option.splits if_splits)
next
  assume "updateFileContent now p newContent fs = (False, fs')"
  then show "fs' = fs"
    by (auto simp: updateFileContent_def split: option.splits if_splits)
next
  assume "setCurrentDirectory p fs = (False, fs')"
  then show "fs' = fs"
    by (auto simp: setCurrentDirectory_def split: option.splits if_splits)
next
  assume "importFilesystem parse data st = (False, st')"
  then show "st' = st"
    by (auto simp: importFilesystem_def split: option.splits)
qed

theorem failed_operation_leaves_tree_witness:
  "createFile ''id-x'' 1 ''f'' ''/nope'' None seed_part = (None, seed_part) \<and>
   createDirectory ''id-x'' 1 ''d'' ''/data/logs/system.log'' seed_part = (None, seed_part) \<and>
   deleteNode ''/system'' seed_part = Some (False, seed_part) \<and>
   deleteNode ''/'' seed_part = Some (False, seed_part) \<and>
   deleteNode ''/nope'' seed_part = Some (False, seed_part) \<and>
   renameNode 1 ''/system'' ''sys'' seed_part = Some (False, seed_part) \<and>
   moveNode 1 ''/data/logs'' ''/nope'' seed_part = (False, seed_part) \<and>
   updateFileContent 1 ''/data'' ''text'' seed_part = (False, seed_part) \<and>
   setCurrentDirectory ''/data/logs/system.log'' seed_part = (False, seed_part) \<and>
   importFilesystem demo_parse ''{'' (Tree seed_part) = (False, Tree seed_part)"
proof -
  let ?cf = "createFile ''id-x'' 1 ''f'' ''/nope'' None seed_part"
  let ?cd = "createDirectory ''id-x'' 1 ''d'' ''/data/logs/system.log'' seed_part"
  let ?rn = "renameNode 1 ''/system'' ''sys'' seed_part"
  let ?mv = "moveNode 1 ''/data/logs'' ''/nope'' seed_part"
  let ?up = "updateFileContent 1 ''/data'' ''text'' seed_part"
  let ?sc = "setCurrentDirectory ''/data/logs/system.log'' seed_part"
  let ?im = "importFilesystem demo_parse ''{'' (Tree seed_part)"
  have cf: "?cf = (None, snd ?cf)" by code_simp
  have cd: "?cd = (None, snd ?cd)" by code_simp
  have d1: "deleteNode ''/system'' seed_part
              = Some (False, snd (the (deleteNode ''/system'' seed_part)))" by code_simp
  have d2: "deleteNode ''/'' seed_part
              = Some (False, snd (the (deleteNode ''/'' seed_part)))" by code_simp
  have d3: "deleteNode ''/nope'' seed_part
              = Some (False, snd (the (deleteNode ''/nope'' seed_part)))" by code_simp
  have rn: "?rn = Some (False, snd (the ?rn))" by code_simp
  have mv: "?mv = (False, snd ?mv)" by code_simp
  have up: "?up = (False, snd ?up)" by code_simp
  have sc: "?sc = (False, snd ?sc)" by code_simp
  have im: "?im = (False, snd ?im)" by code_simp
  have "snd ?cf = seed_part"
    using cf failed_operation_leaves_tree [where fs = seed_part and fs' = "snd ?cf"] by blast
  moreover have "snd ?cd = seed_part"
    using cd failed_operation_leaves_tree [where fs = seed_part and fs' = "snd ?cd"] by blast
  moreover have "snd (the (deleteNode ''/system'' seed_part)) = seed_part"
    using d1 failed_operation_leaves_tree [where fs = seed_part
        and fs' = "snd (the (deleteNode ''/system'' seed_part))"] by blast
  moreover have "snd (the (deleteNode ''/'' seed_part)) = seed_part"
    using d2 failed_operation_leaves_tree [where fs = seed_part
        and fs' = "snd (the (deleteNode ''/'' seed_part))"] by blast
  moreover have "snd (the (deleteNode ''/nope'' seed_part)) = seed_part"
    using d3 failed_operation_leaves_tree [where fs = seed_part
        and fs' = "snd (the (deleteNode ''/nope'' seed_part))"] by blast
  moreover have "snd (the ?rn) = seed_part"
    using rn failed_operation_leaves_tree [where fs = seed_part and fs' = "snd (the ?rn)"]
    by blast
  moreover have "snd ?mv = seed_part"
    using mv failed_operation_leaves_tree [where fs = seed_part and fs' = "snd ?mv"] by blast
  moreover have "snd ?up = seed_part"
    using up failed_operation_leaves_tree [where fs = seed_part and fs' = "snd ?up"] by blast
  moreover have "snd ?sc = seed_part"
    using sc failed_operation_leaves_tree [where fs = seed_part and fs' = "snd ?sc"] by blast
  moreover have "snd ?im = Tree seed_part"
    using im failed_operation_leaves_tree [where st = "Tree seed_part" and st' = "snd ?im"]
    by blast
  ultimately show ?thesis
    using cf cd d1 d2 d3 rn mv up sc im by simp
qed

subsection \<open>grep\<close>

text \<open>
  What \<^verbatim>\<open>grep\<close> does get right. A line it prints matches the pattern (for a matcher that
  finds no match from a later index where there is none from the start), and it prints
  nothing exactly when no line matches. So the exit code is 0 when some line matches, 1
  when none does, and 2 when the pattern is not a regular expression.
\<close>

lemma filter_test_subset:
  assumes "\<And>line i e. m line i = Some e \<Longrightarrow> m line 0 \<noteq> None"
  shows "set (filter_test m lastIndex ls) \<subseteq> {line \<in> set ls. m line 0 \<noteq> None}"
proof (induction ls arbitrary: lastIndex)
  case Nil
  then show ?case by simp
next
  case (Cons line rest)
  show ?case
  proof (cases "regex_test m line lastIndex")
    case (Pair ok li)
    show ?thesis
    proof (cases ok)
      case True
      with Pair have "m line 0 \<noteq> None"
        using assms by (auto simp: regex_test_def split: if_splits option.splits)
      with Pair True Cons.IH [of li] show ?thesis by auto
    next
      case False
      with Pair Cons.IH [of li] show ?thesis by auto
    qed
  qed
qed

lemma filter_test_empty:
  "filter_test m 0 ls = [] \<longleftrightarrow> (\<forall>line\<in>set ls. m line 0 = None)"
  by (induction ls) (auto simp: regex_test_def split: option.splits)

lemma grep_exit_code:
  assumes "length args \<ge> 2" and "readFile (filesystem w) (args ! 1) = Some c"
  shows "cmd_grep h args w = Inr ((out, code), w') \<Longrightarrow>
         code = (case newRegExp h (args ! 0) of
                   None \<Rightarrow> 2
                 | Some m \<Rightarrow> if \<exists>line\<in>set (js_split CHR 0x0A c). m line 0 \<noteq> None then 0 else 1)"
  using assms
  by (auto simp: cmd_grep_def Let_def filter_test_empty split: option.splits if_splits)

text \<open>
  C5. \<^verbatim>\<open>grep\<close> should print exactly the lines that match the pattern. The handler tests
  all lines with one regular expression that has the \<^verbatim>\<open>g\<close> flag, and such an expression
  starts each search where its last match ended. In a file with the two lines \<^verbatim>\<open>ab\<close> and
  \<^verbatim>\<open>ab\<close>, both of which match \<^verbatim>\<open>ab\<close>, the search in the second line starts at index 2 and
  fails: \<^verbatim>\<open>grep ab t.txt\<close> prints one line. (Here \<^verbatim>\<open>new RegExp\<close> is \<open>plainRegExp\<close>.)
\<close>

theorem grep_skips_matching_line:
  "(let w = demo_world\<lparr>filesystem :=
              snd (createFile ''id-t'' 1 ''t.txt'' ''/home/user''
                     (Some (''ab'' @ [CHR 0x0A] @ ''ab'')) seed_part)\<rparr>
    in readFile (filesystem w) ''t.txt'' = Some (''ab'' @ [CHR 0x0A] @ ''ab'') \<and>
       (case executeCommand demo_host ''grep ab t.txt'' w of
          Inl e \<Rightarrow> False
        | Inr (command, w') \<Rightarrow> outputC command = ''ab'' \<and> exitCodeC command = 0))"
  by code_simp

subsection \<open>rm and a failed delete\<close>

text \<open>
  C6. A handler should turn a failure of the filesystem into a message and a nonzero
  exit code. The handler of \<^verbatim>\<open>rm\<close> does not look at what \<^verbatim>\<open>deleteNode\<close> returns:
  \<^verbatim>\<open>rm -r /system\<close> on the read-only directory \<^verbatim>\<open>/system\<close> deletes nothing, prints nothing
  and exits with 0, after it has reported the delta -25.
\<close>

theorem rm_ignores_failed_delete:
  "deleteNode ''/system'' seed_part = Some (False, seed_part) \<and>
   (case executeCommand demo_host ''rm -r /system'' demo_world of
      Inl e \<Rightarrow> False
    | Inr (command, w') \<Rightarrow>
        outputC command = [] \<and> exitCodeC command = 0 \<and>
        filesystem w' = seed_part \<and> integrityDeltas (system w') = [- 25])"
  by code_simp

subsection \<open>Renaming a directory\<close>

text \<open>
  What does hold for every successful rename: the node table keeps its keys in their
  order, every node keeps its id, content, parent, type and children, and only the
  renamed node changes its name.
\<close>

lemma renameNode_keeps_nodes:
  assumes "renameNode now p newName fs = Some (True, fs')"
    and "getNodeByPath fs p = Some node"
  shows "map fst (nodes fs') = map fst (nodes fs) \<and>
         (\<forall>k. case getNodeById fs' k of
                None \<Rightarrow> getNodeById fs k = None
              | Some n' \<Rightarrow>
                  (case getNodeById fs k of
                     None \<Rightarrow> False
                   | Some n \<Rightarrow>
                       idF n' = idF n \<and> content n' = content n \<and> parent n' = parent n \<and>
                       typeF n' = typeF n \<and> children n' = children n \<and>
                       (if k = idF node then True else name n' = name n)))"
proof -
  from assms obtain d where up:
    "updatePaths d now (idF node) newName (idF node) (path node)
       (joinPath (getParentPath p) newName) fs = Some fs'"
    by (auto simp: renameNode_def Let_def simp del: updatePaths.simps split: if_splits)
  let ?g = "\<lambda>k n. (idF n, content n, parent n, typeF n, children n,
                    if k = idF node then None else Some (name n))"
  have "map fst (nodes fs') = map fst (nodes fs) \<and>
        (\<forall>j. map_option (?g j) (getNodeById fs' j) = map_option (?g j) (getNodeById fs j))"
    by (rule updatePaths_preserves [OF _ up]) simp
  then have keys: "map fst (nodes fs') = map fst (nodes fs)"
    and proj: "\<And>j. map_option (?g j) (getNodeById fs' j) = map_option (?g j) (getNodeById fs j)"
    by simp_all
  show ?thesis
  proof (intro conjI allI)
    show "map fst (nodes fs') = map fst (nodes fs)" by (rule keys)
  next
    fix k
    from proj [of k]
    show "case getNodeById fs' k of
            None \<Rightarrow> getNodeById fs k = None
          | Some n' \<Rightarrow>
              (case getNodeById fs k of
                 None \<Rightarrow> False
               | Some n \<Rightarrow>
                   idF n' = idF n \<and> content n' = content n \<and> parent n' = parent n \<and>
                   typeF n' = typeF n \<and> children n' = children n \<and>
                   (if k = idF node then True else name n' = name n))"
      by (cases "getNodeById fs' k"; cases "getNodeById fs k") (auto split: if_splits)
  qed
qed

text \<open>
  C7. After a successful rename of a directory the paths of its descendants should start
  with the directory's new path under its parent. With the absolute path as argument
  \<^verbatim>\<open>renameNode\<close> does that: \<^verbatim>\<open>/data/logs/system.log\<close> becomes \<^verbatim>\<open>/data/log/system.log\<close>.
  But \<^verbatim>\<open>renameNode\<close> takes the parent path from its argument as typed, not from the
  resolved path: with \<^verbatim>\<open>/data\<close> as the current directory, renaming \<^verbatim>\<open>logs\<close> to \<^verbatim>\<open>log\<close>
  finds \<^verbatim>\<open>/data/logs\<close>, succeeds, and gives the directory the path \<^verbatim>\<open>/log\<close> and its
  file the path \<^verbatim>\<open>/log/system.log\<close>. And the new path is the replacement text of
  \<^verbatim>\<open>String.prototype.replace\<close>, in which a dollar sign is special: renaming
  \<^verbatim>\<open>/data/logs\<close> to \<^verbatim>\<open>$'\<close> gives the directory the path \<^verbatim>\<open>/data/\<close> and its file the path
  \<^verbatim>\<open>/data//system.log/system.log\<close>.
\<close>

theorem renameNode_descendant_paths:
  "(case renameNode 1 ''/data/logs'' ''log'' seed_part of
      None \<Rightarrow> False
    | Some (ok, fs') \<Rightarrow>
        ok \<and>
        map_option path (getNodeById fs' ''id-logs'') = Some ''/data/log'' \<and>
        map_option path (getNodeById fs' ''id-syslog'') = Some ''/data/log/system.log'') \<and>
   (let fs = snd (setCurrentDirectory ''/data'' seed_part) in
      map_option path (getNodeByPath fs ''logs'') = Some ''/data/logs'' \<and>
      (case renameNode 1 ''logs'' ''log'' fs of
         None \<Rightarrow> False
       | Some (ok, fs') \<Rightarrow>
           ok \<and>
           map_option path (getNodeById fs' ''id-logs'') = Some ''/log'' \<and>
           map_option parent (getNodeById fs' ''id-logs'') = Some (Some ''id-data'') \<and>
           map_option path (getNodeById fs' ''id-syslog'') = Some ''/log/system.log'')) \<and>
   (case renameNode 1 ''/data/logs'' (CHR ''$'' # sq) seed_part of
      None \<Rightarrow> False
    | Some (ok, fs') \<Rightarrow>
        ok \<and>
        map_option path (getNodeById fs' ''id-logs'') = Some ''/data/'' \<and>
        map_option path (getNodeById fs' ''id-syslog'') = Some ''/data//system.log/system.log'')"
  by code_simp

subsection \<open>History navigation\<close>

text \<open>
  C10. With a history that is not empty and no cursor set, \<^verbatim>\<open>navigateHistory('down')\<close>
  returns the empty string and overwrites the draft with it.
\<close>

theorem navigateHistory_down_without_cursor:
  assumes "commandHistory t \<noteq> []" and "historyIndex t = - 1"
  shows "navigateHistory Down t = ([], t\<lparr>historyIndex := - 1, currentInput := []\<rparr>)"
  using assms by (simp add: navigateHistory_def history_at_def Let_def)

theorem navigateHistory_down_without_cursor_witness:
  "commandHistory demo_terminal \<noteq> [] \<and> historyIndex demo_terminal = - 1 \<and>
   currentInput demo_terminal = ''draft'' \<and>
   fst (navigateHistory Down demo_terminal) = [] \<and>
   currentInput (snd (navigateHistory Down demo_terminal)) = []"
proof -
  have h1: "commandHistory demo_terminal \<noteq> []" by (simp add: demo_terminal_def)
  have h2: "historyIndex demo_terminal = - 1" by (simp add: demo_terminal_def)
  show ?thesis
    using h1 h2 navigateHistory_down_without_cursor [OF h1 h2]
    by (simp add: demo_terminal_def)
qed

subsection \<open>Snapshots\<close>

lemma those_map_asStr: "those (map (asStr \<circ> JStr) cs) = Some cs"
  by (induction cs) simp_all

lemma asType_encode:
  "asType (JStr (case ty of File \<Rightarrow> ''file'' | Directory \<Rightarrow> ''directory'')) = Some ty"
  by (cases ty) simp_all

lemma asNullable_encode: "asNullable (case p of None \<Rightarrow> JNull | Some i \<Rightarrow> JStr i) = Some p"
  by (cases p) simp_all

lemma asDate_encode: "asDate (encodeDate toISO d) = Some (asDateString toISO d)"
  by (cases d) (simp_all add: encodeDate_def asDateString_def)

lemma decodeNode_encodeNode: "decodeNode (encodeNode toISO n) = Some (jsonDates toISO n)"
proof (cases n)
  case (fields i nm ty pa par perm ow gr sz cr mo co ch ro)
  show ?thesis
    unfolding fields encodeNode_def jsonDates_def
    by (cases co; cases ch; cases ro)
       (simp_all add: required_def optional_def asType_encode asNullable_encode asDate_encode
          those_map_asStr del: asType.simps)
qed

lemma decodeNodes_encode:
  "decodeNodes (JObj (map (\<lambda>(k, n). (k, encodeNode toISO n)) ns))
   = Some (map (\<lambda>(k, n). (k, jsonDates toISO n)) ns)"
  by (induction ns) (auto simp: decodeNode_encodeNode)

lemma decodeFileSystem_encodeFileSystem:
  "decodeFileSystem (encodeFileSystem toISO fs) = Some (roundTrip toISO fs)"
  by (simp add: encodeFileSystem_def required_def decodeNodes_encode roundTrip_def
        del: decodeNodes.simps)

lemma roundTrip_nodes:
  "list_all2 (\<lambda>(k, n) (k', n'). k' = k \<and> idF n' = idF n \<and> path n' = path n \<and>
                 parent n' = parent n \<and> content n' = content n)
     ns (map (\<lambda>(k, n). (k, jsonDates toISO n)) ns)"
  by (induction ns) (auto simp: jsonDates_def)

text \<open>
  C8. Exporting a filesystem and importing the exported text at once succeeds and stores
  a filesystem with the same root and current directory and, identifier by identifier in
  the same order, nodes with the same id, path, parent and content (\<open>roundTrip\<close> turns
  the dates into strings and changes nothing else). The one assumption is about the
  platform: \<^verbatim>\<open>JSON.parse\<close> reads back the value \<^verbatim>\<open>JSON.stringify\<close> wrote.
\<close>

theorem export_import_roundtrip:
  assumes "parse (stringify (encodeFileSystem toISO fs)) = Some (encodeFileSystem toISO fs)"
  shows "importFilesystem parse (exportFilesystem stringify toISO (Tree fs)) st
           = (True, Tree (roundTrip toISO fs)) \<and>
         root (roundTrip toISO fs) = root fs \<and>
         currentDirectory (roundTrip toISO fs) = currentDirectory fs \<and>
         list_all2 (\<lambda>(k, n) (k', n'). k' = k \<and> idF n' = idF n \<and> path n' = path n \<and>
                       parent n' = parent n \<and> content n' = content n)
           (nodes fs) (nodes (roundTrip toISO fs))"
proof -
  have "importFilesystem parse (exportFilesystem stringify toISO (Tree fs)) st
          = (True, Tree (roundTrip toISO fs))"
    using assms
    by (simp add: importFilesystem_def exportFilesystem_def storedJSON_def asStored_def
          decodeFileSystem_encodeFileSystem)
  moreover have "list_all2 (\<lambda>(k, n) (k', n'). k' = k \<and> idF n' = idF n \<and> path n' = path n \<and>
                       parent n' = parent n \<and> content n' = content n)
           (nodes fs) (nodes (roundTrip toISO fs))"
    using roundTrip_nodes [of "nodes fs" toISO] by (simp add: roundTrip_def)
  ultimately show ?thesis
    by (simp add: roundTrip_def)
qed

theorem export_import_roundtrip_witness:
  "demo_parse (demo_stringify (encodeFileSystem demo_toISO seed_part))
     = Some (encodeFileSystem demo_toISO seed_part) \<and>
   fst (importFilesystem demo_parse (exportFilesystem demo_stringify demo_toISO (Tree seed_part))
          (Tree seed_part)) \<and>
   (case snd (importFilesystem demo_parse
                (exportFilesystem demo_stringify demo_toISO (Tree seed_part)) (Tree seed_part)) of
      NotATree j \<Rightarrow> False
    | Tree fs' \<Rightarrow>
        root fs' = ''id-root'' \<and> currentDirectory fs' = ''id-user'' \<and>
        map (\<lambda>(k, n). (k, path n)) (nodes fs') = map (\<lambda>(k, n). (k, path n)) (nodes seed_part))"
proof -
  have h: "demo_parse (demo_stringify (encodeFileSystem demo_toISO seed_part))
             = Some (encodeFileSystem demo_toISO seed_part)"
    by code_simp
  have r: "root seed_part = ''id-root''" "currentDirectory seed_part = ''id-user''"
    by (simp_all add: seed_part_def)
  show ?thesis
    using h r
      export_import_roundtrip [where parse = demo_parse and stringify = demo_stringify
        and toISO = demo_toISO and fs = seed_part and st = "Tree seed_part", OF h]
    by (auto simp: roundTrip_def jsonDates_def)
qed

text \<open>
  C9. \<^verbatim>\<open>importFilesystem\<close> returns \<^verbatim>\<open>true\<close> and replaces the stored filesystem by the parsed
  value for every text that parses, whatever the value is. For the values \<^verbatim>\<open>null\<close> and
  \<^verbatim>\<open>42\<close> the store then holds a value that is no filesystem.
\<close>

theorem importFilesystem_accepts_any_json:
  assumes "parse data = Some j"
  shows "importFilesystem parse data st = (True, asStored j) \<and>
         (j \<in> {JNull, JNum 42} \<longrightarrow> asStored j = NotATree j)"
  using assms by (auto simp: importFilesystem_def asStored_def)

theorem importFilesystem_accepts_any_json_witness:
  "demo_parse ''null'' = Some JNull \<and>
   importFilesystem demo_parse ''null'' (Tree seed_part) = (True, NotATree JNull) \<and>
   demo_parse ''42'' = Some (JNum 42) \<and>
   importFilesystem demo_parse ''42'' (Tree seed_part) = (True, NotATree (JNum 42))"
proof -
  have h1: "demo_parse ''null'' = Some JNull"
    by (simp add: demo_parse_def demo_texts_def)
  have h2: "demo_parse ''42'' = Some (JNum 42)"
    by (simp add: demo_parse_def demo_texts_def)
  show ?thesis
    using h1 h2
      importFilesystem_accepts_any_json [where parse = demo_parse and data = "''null''"
        and j = JNull and st = "Tree seed_part", OF h1]
      importFilesystem_accepts_any_json [where parse = demo_parse and data = "''42''"
        and j = "JNum 42" and st = "Tree seed_part", OF h2]
    by simp
qed

end
